theory Spec2Isabelle
  imports Complex_Main
begin

section \<open>JavaScript values\<close>

text \<open>
  The candidates handed to a schema are untyped JavaScript values (\<^verbatim>\<open>unknown\<close>).
  Numbers are modelled as integers: byte counts, indices and megabyte limits are whole
  numbers far below \<open>2^53\<close>, where double arithmetic is exact. A \<^verbatim>\<open>File\<close> is its name,
  MIME type and size in bytes. An object is the list of its own properties in creation
  order, an array the list of its elements. Inherited properties are not modelled.
\<close>

record jsfile =
  fname :: string
  ftype :: string
  fsize :: nat

datatype jsval =
    JUndefined
  | JNull
  | JBool bool
  | JNum int
  | JStr string
  | JFile jsfile
  | JArr "jsval list"
  | JObj "(string \<times> jsval) list"

subsection \<open>Numbers as text\<close>

definition digit_char :: "nat \<Rightarrow> char" where
  "digit_char d = ''0123456789'' ! d"

fun nat_to_string :: "nat \<Rightarrow> string" where
  "nat_to_string n =
     (if n < 10 then [digit_char n] else nat_to_string (n div 10) @ [digit_char (n mod 10)])"

declare nat_to_string.simps [simp del]

definition int_to_string :: "int \<Rightarrow> string" where
  "int_to_string i = (if i < 0 then CHR ''-'' # nat_to_string (nat (- i)) else nat_to_string (nat i))"

subsection \<open>Property order of objects\<close>

text \<open>
  \<^verbatim>\<open>Object.keys\<close>, \<^verbatim>\<open>Object.values\<close>, \<^verbatim>\<open>Object.entries\<close>, \<^verbatim>\<open>Object.assign\<close> and
  \<^verbatim>\<open>JSON.stringify\<close> visit the own properties of an object in the order the language
  fixes: first the keys that are array indices (canonical decimal numerals below
  \<open>2^32 - 1\<close>) in ascending numeric order, then every other string key in the order of
  creation.
\<close>

definition is_digit :: "char \<Rightarrow> bool" where
  "is_digit c = (List.member ''0123456789'' c)"

definition digit_val :: "char \<Rightarrow> int" where
  "digit_val c = of_char c - 48"

definition digits_val :: "string \<Rightarrow> int" where
  "digits_val k = foldl (\<lambda>a c. 10 * a + digit_val c) 0 k"

definition is_array_index :: "string \<Rightarrow> bool" where
  "is_array_index k =
     (case k of
        [] \<Rightarrow> False
      | c # cs \<Rightarrow> list_all is_digit k \<and> (if c = CHR ''0'' then cs = [] else True)
                 \<and> digits_val k < 4294967295)"

definition own_entries :: "(string \<times> 'a) list \<Rightarrow> (string \<times> 'a) list" where
  "own_entries m =
     sort_key (\<lambda>e. digits_val (fst e)) (filter (\<lambda>e. is_array_index (fst e)) m)
     @ filter (\<lambda>e. \<not> is_array_index (fst e)) m"

text \<open>\<^verbatim>\<open>m[k] = v\<close>: an existing property keeps its place, a new one is created last.\<close>

fun obj_set :: "string \<Rightarrow> 'a \<Rightarrow> (string \<times> 'a) list \<Rightarrow> (string \<times> 'a) list" where
  "obj_set k v [] = [(k, v)]"
| "obj_set k v (e # m) = (if fst e = k then (k, v) # m else e # obj_set k v m)"

text \<open>\<^verbatim>\<open>Object.assign(target, source)\<close>.\<close>

definition obj_assign :: "(string \<times> 'a) list \<Rightarrow> (string \<times> 'a) list \<Rightarrow> (string \<times> 'a) list" where
  "obj_assign target source = foldl (\<lambda>acc e. obj_set (fst e) (snd e) acc) target (own_entries source)"

text \<open>
  \<^verbatim>\<open>value[key]\<close> on a value that passed the \<^verbatim>\<open>typeof value === "object"\<close> test, for a key
  that is an own property or that no prototype defines. For a key that names a member
  the candidate inherits (\<^verbatim>\<open>constructor\<close>, \<^verbatim>\<open>toString\<close>, an array method) the source reads
  that member, where this function answers \<^verbatim>\<open>undefined\<close>; no statement below evaluates
  it at such a key.
\<close>

definition js_get :: "jsval \<Rightarrow> string \<Rightarrow> jsval" where
  "js_get value key =
     (case value of
        JObj m \<Rightarrow> (case map_of m key of Some x \<Rightarrow> x | None \<Rightarrow> JUndefined)
      | JArr xs \<Rightarrow>
          (if is_array_index key \<and> digits_val key < int (length xs) then xs ! nat (digits_val key)
           else if key = ''length'' then JNum (int (length xs))
           else JUndefined)
      | JFile f \<Rightarrow>
          (if key = ''name'' then JStr (fname f)
           else if key = ''type'' then JStr (ftype f)
           else if key = ''size'' then JNum (int (fsize f))
           else JUndefined)
      | _ \<Rightarrow> JUndefined)"

subsection \<open>\<^verbatim>\<open>JSON.stringify\<close>\<close>

definition hex_char :: "nat \<Rightarrow> char" where
  "hex_char d = ''0123456789abcdef'' ! d"

definition json_escape :: "char \<Rightarrow> string" where
  "json_escape c =
     (if c = CHR 0x22 then [CHR 0x5C, CHR 0x22]
      else if c = CHR 0x5C then [CHR 0x5C, CHR 0x5C]
      else if c = CHR 0x08 then [CHR 0x5C, CHR ''b'']
      else if c = CHR 0x09 then [CHR 0x5C, CHR ''t'']
      else if c = CHR 0x0A then [CHR 0x5C, CHR ''n'']
      else if c = CHR 0x0C then [CHR 0x5C, CHR ''f'']
      else if c = CHR 0x0D then [CHR 0x5C, CHR ''r'']
      else if (of_char c :: nat) < 32
        then [CHR 0x5C, CHR ''u'', CHR ''0'', CHR ''0'',
              hex_char (of_char c div 16), hex_char (of_char c mod 16)]
      else [c])"

definition json_quote :: "string \<Rightarrow> string" where
  "json_quote s = CHR 0x22 # concat (map json_escape s) @ [CHR 0x22]"

fun join :: "string \<Rightarrow> string list \<Rightarrow> string" where
  "join sep [] = []"
| "join sep [x] = x"
| "join sep (x # y # ys) = x @ sep @ join sep (y # ys)"

text \<open>
  \<^verbatim>\<open>JSON.stringify(value)\<close>; \<open>None\<close> is the result \<^verbatim>\<open>undefined\<close>. A \<^verbatim>\<open>File\<close> has no own
  enumerable property, so it serialises as the empty object. An undefined array element
  is written \<^verbatim>\<open>null\<close>, an undefined property is left out.
\<close>

fun stringify :: "jsval \<Rightarrow> string option" where
  "stringify JUndefined = None"
| "stringify JNull = Some ''null''"
| "stringify (JBool b) = Some (if b then ''true'' else ''false'')"
| "stringify (JNum n) = Some (int_to_string n)"
| "stringify (JStr s) = Some (json_quote s)"
| "stringify (JFile f) = Some ''{}''"
| "stringify (JArr xs) =
     Some (''['' @ join '','' (map (\<lambda>x. case stringify x of None \<Rightarrow> ''null'' | Some t \<Rightarrow> t) xs) @ '']'')"
| "stringify (JObj m) =
     Some (''{'' @ join '',''
        (concat (map (\<lambda>e. case snd e of None \<Rightarrow> [] | Some t \<Rightarrow> [json_quote (fst e) @ '':'' @ t])
           (own_entries (map (\<lambda>e. (fst e, stringify (snd e))) m)))) @ ''}'')"

section \<open>Validation results, promises and the store\<close>

type_synonym errmap = "(string \<times> string) list"

text \<open>
  \<^verbatim>\<open>ValidationResult<T>\<close>. The error map is a plain object from key to message, kept in
  creation order.
\<close>

datatype validation_result = Success jsval | Failure errmap

text \<open>
  A validator returns \<^verbatim>\<open>ValidationResult<T> | Promise<ValidationResult<T>>\<close>.
  \<open>Plain x\<close> is the value \<open>x\<close> itself. \<open>Promise d x\<close> is a promise that fulfils with
  \<open>x\<close> in turn \<open>d\<close> of the job queue, counted from the call that created it; an external
  collaborator states its own latency in the same unit. Continuations that become ready
  in the same turn run in the order their calls were started. A validator or a
  collaborator whose promise rejects is not modelled: collaborators are taken to answer.
\<close>

datatype 'a awaitable = Plain 'a | Promise nat 'a

fun settled :: "'a awaitable \<Rightarrow> 'a" where
  "settled (Plain x) = x"
| "settled (Promise d x) = x"

text \<open>The turn in which the code after \<^verbatim>\<open>await e\<close> runs.\<close>

fun resume_tick :: "'a awaitable \<Rightarrow> nat" where
  "resume_tick (Plain x) = 1"
| "resume_tick (Promise d x) = d + 1"

text \<open>
  Everything mutable that evaluation can reach: the \<^verbatim>\<open>Map\<close> objects created by
  \<^verbatim>\<open>setCache\<close> (by address), the \<^verbatim>\<open>formRule\<close> property of the instances created by
  \<^verbatim>\<open>object\<close> (by instance), a trace that caller-supplied stubs may write, and the
  \<^verbatim>\<open>uploadProgress\<close> state of the form hook.
\<close>

record store =
  maps :: "nat \<Rightarrow> (string \<times> validation_result) list"
  fresh :: nat
  formRules :: "nat \<Rightarrow> (jsval \<Rightarrow> string option) option"
  calls :: "string list"
  uploadProgress :: "(string \<times> int) list"

text \<open>The state of the form hook, apart from the upload progress.\<close>

record form_state =
  formValue :: jsval
  formErrors :: errmap

text \<open>The options of \<^verbatim>\<open>dimensions\<close>: each bound may be absent.\<close>

record bounds =
  minWidth :: "int option"
  maxWidth :: "int option"
  minHeight :: "int option"
  maxHeight :: "int option"

type_synonym progress = "string \<Rightarrow> int \<Rightarrow> store \<Rightarrow> store"

text \<open>
  A validator takes the candidate, the parent (\<open>JUndefined\<close> when the caller passes
  none) and, as third argument, the options object with the \<^verbatim>\<open>onProgress\<close> callback
  (\<open>None\<close> when the caller passes none).
\<close>

type_synonym validator =
  "jsval \<Rightarrow> jsval \<Rightarrow> progress option \<Rightarrow> store \<Rightarrow> validation_result awaitable \<times> store"

section \<open>The schema class\<close>

record zet_schema =
  validator :: validator
  description :: string
  transformFn :: "(jsval \<Rightarrow> jsval) option"
  cacheMap :: "nat option"
  stages :: "string \<Rightarrow> validator option"

text \<open>The constructor: a fresh stage table holding the validator under \<^verbatim>\<open>"default"\<close>.\<close>

definition ZetSchema ::
  "validator \<Rightarrow> string \<Rightarrow> (jsval \<Rightarrow> jsval) option \<Rightarrow> nat option \<Rightarrow> zet_schema" where
  "ZetSchema v d t c =
     \<lparr>validator = v, description = d, transformFn = t, cacheMap = c,
      stages = [''default'' \<mapsto> v]\<rparr>"

text \<open>
  \<^verbatim>\<open>this.stages[stage] ? this.stages[stage](value, parent) : this.validator(value, parent)\<close>:
  two arguments, so the validator sees no options object. The stage is a registered
  name or a name that no object inherits: for \<^verbatim>\<open>toString\<close>, \<^verbatim>\<open>constructor\<close>,
  \<^verbatim>\<open>__proto__\<close> and the other members of \<^verbatim>\<open>Object.prototype\<close> the source finds the
  inherited member in the table and calls it in place of a validator, which is not
  modelled. The combinators always ask for \<^verbatim>\<open>"default"\<close>, which the constructor
  registers.
\<close>

definition stage_validator :: "zet_schema \<Rightarrow> string \<Rightarrow> validator" where
  "stage_validator this stage = (case stages this stage of Some f \<Rightarrow> f | None \<Rightarrow> validator this)"

subsection \<open>\<^verbatim>\<open>parse\<close>\<close>

datatype thrown = Error string | ReferenceError string

text \<open>
  What \<^verbatim>\<open>parse\<close> throws is the \<open>Inl\<close> result; when the validator answered with a promise,
  \<^verbatim>\<open>parse\<close> answers with a promise and \<open>Inl\<close> is its rejection.
  \<^verbatim>\<open>Object.values(errors)[0]\<close> is the first value in property order; on an empty map it is
  \<^verbatim>\<open>undefined\<close>, and \<^verbatim>\<open>new Error(undefined)\<close> has the empty message.
\<close>

definition first_message :: "errmap \<Rightarrow> string" where
  "first_message errors = (case own_entries errors of [] \<Rightarrow> [] | e # _ \<Rightarrow> snd e)"

definition apply_transform :: "zet_schema \<Rightarrow> jsval \<Rightarrow> jsval" where
  "apply_transform this d = (case transformFn this of Some f \<Rightarrow> f d | None \<Rightarrow> d)"

definition parse ::
  "zet_schema \<Rightarrow> jsval \<Rightarrow> jsval \<Rightarrow> string \<Rightarrow> store \<Rightarrow> (thrown + jsval) awaitable \<times> store" where
  "parse this value parent stage s =
     (case stage_validator this stage value parent None s of
        (Promise d res, s1) \<Rightarrow>
          (Promise (d + 1)
             (case res of
                Success x \<Rightarrow> Inr (apply_transform this x)
              | Failure errors \<Rightarrow> Inl (Error (first_message errors))), s1)
      | (Plain result, s1) \<Rightarrow>
          (Plain
             (case result of
                Success x \<Rightarrow> Inr (apply_transform this x)
              | Failure errors \<Rightarrow> Inl (Error (first_message errors))), s1))"

text \<open>
  The second copy of the class in the repository differs in \<^verbatim>\<open>parse\<close> by one name: its
  synchronous failure branch reads \<^verbatim>\<open>res.errors\<close>, and \<^verbatim>\<open>res\<close> is bound only inside the
  promise callback, so evaluating the argument of \<^verbatim>\<open>new Error\<close> throws a
  \<^verbatim>\<open>ReferenceError\<close>.
\<close>

definition parse_second_copy ::
  "zet_schema \<Rightarrow> jsval \<Rightarrow> jsval \<Rightarrow> string \<Rightarrow> store \<Rightarrow> (thrown + jsval) awaitable \<times> store" where
  "parse_second_copy this value parent stage s =
     (case stage_validator this stage value parent None s of
        (Promise d res, s1) \<Rightarrow>
          (Promise (d + 1)
             (case res of
                Success x \<Rightarrow> Inr (apply_transform this x)
              | Failure errors \<Rightarrow> Inl (Error (first_message errors))), s1)
      | (Plain result, s1) \<Rightarrow>
          (Plain
             (case result of
                Success x \<Rightarrow> Inr (apply_transform this x)
              | Failure errors \<Rightarrow> Inl (ReferenceError ''res is not defined'')), s1))"

subsection \<open>\<^verbatim>\<open>safeParse\<close>\<close>

definition cache_key :: "string \<Rightarrow> jsval \<Rightarrow> string" where
  "cache_key stage value =
     stage @ '':'' @ (case stringify value of None \<Rightarrow> ''undefined'' | Some t \<Rightarrow> t)"

text \<open>\<^verbatim>\<open>this.cacheMap?.has(key)\<close> and \<^verbatim>\<open>this.cacheMap.get(key)\<close>.\<close>

definition cache_get :: "zet_schema \<Rightarrow> string \<Rightarrow> store \<Rightarrow> validation_result option" where
  "cache_get this key s = (case cacheMap this of None \<Rightarrow> None | Some c \<Rightarrow> map_of (maps s c) key)"

text \<open>\<^verbatim>\<open>if (this.cacheMap) this.cacheMap.set(key, finalRes)\<close>.\<close>

definition cache_set :: "zet_schema \<Rightarrow> string \<Rightarrow> validation_result \<Rightarrow> store \<Rightarrow> store" where
  "cache_set this key res s =
     (case cacheMap this of
        None \<Rightarrow> s
      | Some c \<Rightarrow> s\<lparr>maps := (maps s)(c := obj_set key res (maps s c))\<rparr>)"

text \<open>
  \<^verbatim>\<open>{ ...res, data: res.success && this.transformFn ? this.transformFn(res.data) : res.data }\<close>;
  on a failure the added \<^verbatim>\<open>data\<close> property is \<^verbatim>\<open>undefined\<close> and the error map is kept.
\<close>

definition finalRes :: "zet_schema \<Rightarrow> validation_result \<Rightarrow> validation_result" where
  "finalRes this res =
     (case res of Success x \<Rightarrow> Success (apply_transform this x) | Failure errors \<Rightarrow> Failure errors)"

text \<open>
  The write into the cache that a promise's continuation performs is attributed to the
  call itself: calls of one schema that overlap in time are not told apart from calls
  made one after the other.
\<close>

definition safeParse ::
  "zet_schema \<Rightarrow> jsval \<Rightarrow> jsval \<Rightarrow> string \<Rightarrow> store \<Rightarrow> validation_result awaitable \<times> store" where
  "safeParse this value parent stage s =
     (let key = cache_key stage value in
      case cache_get this key s of
        Some cached \<Rightarrow> (Plain cached, s)
      | None \<Rightarrow>
          (case stage_validator this stage value parent None s of
             (Promise d res, s1) \<Rightarrow>
               (Promise (d + 1) (finalRes this res), cache_set this key (finalRes this res) s1)
           | (Plain result, s1) \<Rightarrow>
               (Plain (finalRes this result), cache_set this key (finalRes this result) s1)))"

subsection \<open>Derivation methods\<close>

definition describe :: "string \<Rightarrow> zet_schema \<Rightarrow> zet_schema" where
  "describe d this = ZetSchema (validator this) d (transformFn this) (cacheMap this)"

definition setTransform :: "(jsval \<Rightarrow> jsval) \<Rightarrow> zet_schema \<Rightarrow> zet_schema" where
  "setTransform fn this = ZetSchema (validator this) (description this) (Some fn) (cacheMap this)"

definition optional :: "zet_schema \<Rightarrow> zet_schema" where
  "optional this =
     ZetSchema
       (\<lambda>value parent opts s.
          if value = JUndefined then (Plain (Success JUndefined), s)
          else validator this value JUndefined None s)
       (description this) (transformFn this) (cacheMap this)"

definition extend :: "zet_schema \<Rightarrow> zet_schema" where
  "extend this = ZetSchema (validator this) (description this) (transformFn this) (cacheMap this)"

text \<open>\<^verbatim>\<open>setCache\<close> creates a new, empty \<^verbatim>\<open>Map\<close>.\<close>

definition setCache :: "zet_schema \<Rightarrow> store \<Rightarrow> zet_schema \<times> store" where
  "setCache this s =
     (ZetSchema (validator this) (description this) (transformFn this) (Some (fresh s)),
      s\<lparr>maps := (maps s)(fresh s := []), fresh := fresh s + 1\<rparr>)"

text \<open>
  \<^verbatim>\<open>stage\<close> assigns into the receiver's own table and returns the receiver; the value
  below is the receiver after the assignment.
\<close>

definition stage :: "string \<Rightarrow> (zet_schema \<Rightarrow> zet_schema) \<Rightarrow> zet_schema \<Rightarrow> zet_schema" where
  "stage name fn this = this\<lparr>stages := (stages this)(name \<mapsto> validator (fn this))\<rparr>"

text \<open>\<^verbatim>\<open>parent ?? {}\<close>.\<close>

definition or_empty :: "jsval \<Rightarrow> jsval" where
  "or_empty parent = (if parent = JUndefined \<or> parent = JNull then JObj [] else parent)"

definition when_schema ::
  "(jsval \<Rightarrow> bool) \<Rightarrow> (zet_schema \<Rightarrow> zet_schema) \<Rightarrow> (zet_schema \<Rightarrow> zet_schema) \<Rightarrow> zet_schema \<Rightarrow> zet_schema" where
  "when_schema condition then_branch otherwise this =
     ZetSchema
       (\<lambda>value parent opts s.
          validator (if condition (or_empty parent) then then_branch this else otherwise this)
            value parent None s)
       (description this) (transformFn this) (cacheMap this)"

subsection \<open>Refinement methods\<close>

text \<open>\<^verbatim>\<open>message || fallback\<close>: the empty string is falsy.\<close>

definition or_default :: "string option \<Rightarrow> string \<Rightarrow> string" where
  "or_default message fallback =
     (case message of None \<Rightarrow> fallback | Some m \<Rightarrow> if m = [] then fallback else m)"

definition file_of :: "jsval \<Rightarrow> jsfile option" where
  "file_of d = (case d of JFile f \<Rightarrow> Some f | _ \<Rightarrow> None)"

definition starts_with :: "string \<Rightarrow> string \<Rightarrow> bool" where
  "starts_with str p = (take (length p) str = p)"

text \<open>
  Every refinement begins with
  \<^verbatim>\<open>const result = await this.validator(value); if (!result.success) return result;\<close>
  inside an \<^verbatim>\<open>async\<close> function. \<open>rest\<close> is the remainder of the body; it is given the turn
  in which it runs.
\<close>

definition after_base ::
  "zet_schema \<Rightarrow> jsval \<Rightarrow> jsval \<Rightarrow> store
   \<Rightarrow> (nat \<Rightarrow> jsval \<Rightarrow> store \<Rightarrow> validation_result awaitable \<times> store)
   \<Rightarrow> validation_result awaitable \<times> store" where
  "after_base this value parent s rest =
     (case validator this value parent None s of
        (result, s1) \<Rightarrow>
          (case settled result of
             Failure errors \<Rightarrow> (Promise (resume_tick result) (Failure errors), s1)
           | Success d \<Rightarrow> rest (resume_tick result) d s1))"

definition type :: "string list \<Rightarrow> string option \<Rightarrow> zet_schema \<Rightarrow> zet_schema" where
  "type allowedTypes message this =
     ZetSchema
       (\<lambda>value parent opts s. after_base this value JUndefined s (\<lambda>t d s1.
          case file_of d of
            None \<Rightarrow> (Promise t (Success d), s1)
          | Some f \<Rightarrow>
              if \<not> List.member allowedTypes (ftype f)
              then (Promise t (Failure [(description this,
                      or_default message
                        (description this @ '' must be one of: '' @ join '', '' allowedTypes))]), s1)
              else (Promise t (Success d), s1)))
       (description this) (transformFn this) (cacheMap this)"

definition maxSizeMB :: "int \<Rightarrow> string option \<Rightarrow> zet_schema \<Rightarrow> zet_schema" where
  "maxSizeMB maxMB message this =
     ZetSchema
       (\<lambda>value parent opts s. after_base this value JUndefined s (\<lambda>t d s1.
          case file_of d of
            None \<Rightarrow> (Promise t (Success d), s1)
          | Some f \<Rightarrow>
              if int (fsize f) > maxMB * 1024 * 1024
              then (Promise t (Failure [(description this,
                      or_default message
                        (description this @ '' must not exceed '' @ int_to_string maxMB @ ''MB''))]), s1)
              else (Promise t (Success d), s1)))
       (description this) (transformFn this) (cacheMap this)"

text \<open>\<^verbatim>\<open>bound && test\<close>: an absent bound and the bound \<open>0\<close> are falsy.\<close>

definition bound_broken :: "int option \<Rightarrow> (int \<Rightarrow> bool) \<Rightarrow> bool" where
  "bound_broken bound test = (case bound of None \<Rightarrow> False | Some b \<Rightarrow> b \<noteq> 0 \<and> test b)"

definition bound_text :: "int option \<Rightarrow> string" where
  "bound_text bound = (case bound of None \<Rightarrow> ''undefined'' | Some b \<Rightarrow> int_to_string b)"

definition dimension_errors :: "bounds \<Rightarrow> int \<times> int \<Rightarrow> string list" where
  "dimension_errors b dims =
     (if bound_broken (minWidth b) (\<lambda>m. fst dims < m)
        then [''width must be at least '' @ bound_text (minWidth b) @ ''px''] else [])
     @ (if bound_broken (maxWidth b) (\<lambda>m. fst dims > m)
        then [''width must not exceed '' @ bound_text (maxWidth b) @ ''px''] else [])
     @ (if bound_broken (minHeight b) (\<lambda>m. snd dims < m)
        then [''height must be at least '' @ bound_text (minHeight b) @ ''px''] else [])
     @ (if bound_broken (maxHeight b) (\<lambda>m. snd dims > m)
        then [''height must not exceed '' @ bound_text (maxHeight b) @ ''px''] else [])"

text \<open>
  The browser collaborators are parameters: \<open>load_image\<close> answers the width and height
  once the image has loaded, \<open>load_media\<close> the duration in seconds, \<open>to_blob\<close> the size
  of the recompressed image.
\<close>

definition dimensions ::
  "(jsfile \<Rightarrow> (int \<times> int) awaitable) \<Rightarrow> bounds \<Rightarrow> string option \<Rightarrow> zet_schema \<Rightarrow> zet_schema" where
  "dimensions load_image b message this =
     ZetSchema
       (\<lambda>value parent opts s. after_base this value JUndefined s (\<lambda>t d s1.
          case file_of d of
            None \<Rightarrow> (Promise t (Success d), s1)
          | Some f \<Rightarrow>
              if \<not> starts_with (ftype f) ''image/'' then (Promise t (Success d), s1)
              else
                (let img = load_image f;
                     errors = dimension_errors b (settled img)
                 in if errors \<noteq> []
                    then (Promise (t + resume_tick img) (Failure [(description this,
                            or_default message
                              (description this @ '' has invalid dimensions: '' @ join '', '' errors))]), s1)
                    else (Promise (t + resume_tick img) (Success d), s1))))
       (description this) (transformFn this) (cacheMap this)"

definition maxDuration ::
  "(jsfile \<Rightarrow> int awaitable) \<Rightarrow> int \<Rightarrow> string option \<Rightarrow> zet_schema \<Rightarrow> zet_schema" where
  "maxDuration load_media seconds message this =
     ZetSchema
       (\<lambda>value parent opts s. after_base this value JUndefined s (\<lambda>t d s1.
          case file_of d of
            None \<Rightarrow> (Promise t (Success d), s1)
          | Some f \<Rightarrow>
              if \<not> starts_with (ftype f) ''video/'' \<and> \<not> starts_with (ftype f) ''audio/''
              then (Promise t (Success d), s1)
              else
                (let media = load_media f
                 in if settled media > seconds
                    then (Promise (t + resume_tick media) (Failure [(description this,
                            or_default message
                              (description this @ '' must not exceed '' @ int_to_string seconds
                                @ '' seconds''))]), s1)
                    else (Promise (t + resume_tick media) (Success d), s1))))
       (description this) (transformFn this) (cacheMap this)"

definition namePattern :: "(string \<Rightarrow> bool) \<Rightarrow> string option \<Rightarrow> zet_schema \<Rightarrow> zet_schema" where
  "namePattern regex message this =
     ZetSchema
       (\<lambda>value parent opts s. after_base this value JUndefined s (\<lambda>t d s1.
          case file_of d of
            None \<Rightarrow> (Promise t (Success d), s1)
          | Some f \<Rightarrow>
              if \<not> regex (fname f)
              then (Promise t (Failure [(description this,
                      or_default message
                        (description this @ '' name does not match the required pattern''))]), s1)
              else (Promise t (Success d), s1)))
       (description this) (transformFn this) (cacheMap this)"

definition to_lower :: "string \<Rightarrow> string" where
  "to_lower str =
     map (\<lambda>c. if (65::nat) \<le> of_char c \<and> (of_char c :: nat) \<le> 90
               then char_of (of_char c + (32::nat)) else c) str"

definition mimeMap :: "(string \<times> string) list" where
  "mimeMap = [(''jpg'', ''image/jpeg''), (''png'', ''image/png''), (''mp4'', ''video/mp4''),
              (''mp3'', ''audio/mpeg'')]"

text \<open>
  \<^verbatim>\<open>mimeMap[ext.toLowerCase()] || `application/${ext}`\<close>. The table is an object literal,
  so for the two lower-case names that every object inherits, \<^verbatim>\<open>constructor\<close> and
  \<^verbatim>\<open>__proto__\<close>, the lookup answers a function or an object, which is truthy and which
  \<^verbatim>\<open>includes\<close> finds equal to no MIME type: such an extension allows nothing. The
  message handed to \<^verbatim>\<open>type\<close> is never empty, so the list is used for the test only.
\<close>

definition inherited_lower :: "string \<Rightarrow> bool" where
  "inherited_lower name = (name = ''constructor'' \<or> name = ''__proto__'')"

definition extension :: "string list \<Rightarrow> string option \<Rightarrow> zet_schema \<Rightarrow> zet_schema" where
  "extension extensions message this =
     type
       (concat (map (\<lambda>ext. case map_of mimeMap (to_lower ext) of
                              Some m \<Rightarrow> [m]
                            | None \<Rightarrow> if inherited_lower (to_lower ext) then []
                                      else [''application/'' @ ext]) extensions))
       (Some (or_default message
          (description this @ '' must have one of these extensions: '' @ join '', '' extensions)))
       this"

definition compress ::
  "(jsfile \<Rightarrow> (int \<times> int) awaitable) \<Rightarrow> (jsfile \<Rightarrow> rat \<Rightarrow> nat awaitable) \<Rightarrow> int \<Rightarrow> rat
   \<Rightarrow> string option \<Rightarrow> zet_schema \<Rightarrow> zet_schema" where
  "compress load_image to_blob maxMB quality message this =
     ZetSchema
       (\<lambda>value parent opts s. after_base this value JUndefined s (\<lambda>t d s1.
          case file_of d of
            None \<Rightarrow> (Promise t (Success d), s1)
          | Some f \<Rightarrow>
              if \<not> starts_with (ftype f) ''image/'' then (Promise t (Success d), s1)
              else if int (fsize f) \<le> maxMB * 1024 * 1024 then (Promise t (Success d), s1)
              else
                (let img = load_image f;
                     compressedBlob = to_blob f quality;
                     t2 = t + resume_tick img + resume_tick compressedBlob;
                     compressedFile = \<lparr>fname = fname f, ftype = ftype f, fsize = settled compressedBlob\<rparr>
                 in if int (fsize compressedFile) > maxMB * 1024 * 1024
                    then (Promise t2 (Failure [(description this,
                            or_default message
                              (description this @ '' could not be compressed below ''
                                @ int_to_string maxMB @ ''MB''))]), s1)
                    else (Promise t2 (Success (JFile compressedFile)), s1))))
       (description this) (transformFn this) (cacheMap this)"

text \<open>
  The checks a caller supplies (\<^verbatim>\<open>check\<close>, \<^verbatim>\<open>mutationFn\<close>) may have effects of their own,
  so they take and return the store. \<^verbatim>\<open>serverValidate\<close> hands its check the callback
  \<^verbatim>\<open>(progress) => onProgress?.(this.description, progress)\<close>, where \<^verbatim>\<open>onProgress\<close> comes
  from the validator's third argument.
\<close>

definition serverValidate ::
  "(jsfile \<Rightarrow> (int \<Rightarrow> store \<Rightarrow> store) \<Rightarrow> store \<Rightarrow> bool awaitable \<times> store) \<Rightarrow> string option
   \<Rightarrow> zet_schema \<Rightarrow> zet_schema" where
  "serverValidate check message this =
     ZetSchema
       (\<lambda>value parent opts s. after_base this value parent s (\<lambda>t d s1.
          case file_of d of
            None \<Rightarrow> (Promise t (Success d), s1)
          | Some f \<Rightarrow>
              (case check f
                      (\<lambda>progress. case opts of
                                     None \<Rightarrow> (\<lambda>s. s)
                                   | Some onProgress \<Rightarrow> onProgress (description this) progress) s1 of
                 (isValid, s2) \<Rightarrow>
                   if \<not> settled isValid
                   then (Promise (t + resume_tick isValid) (Failure [(description this,
                           or_default message ''Server rejected the file'')]), s2)
                   else (Promise (t + resume_tick isValid) (Success d), s2))))
       (description this) (transformFn this) (cacheMap this)"

definition metadata ::
  "(jsfile \<Rightarrow> (int \<times> int) awaitable) \<Rightarrow> (int \<times> int \<Rightarrow> store \<Rightarrow> bool \<times> store) \<Rightarrow> string option
   \<Rightarrow> zet_schema \<Rightarrow> zet_schema" where
  "metadata load_image check message this =
     ZetSchema
       (\<lambda>value parent opts s. after_base this value JUndefined s (\<lambda>t d s1.
          case file_of d of
            None \<Rightarrow> (Promise t (Success d), s1)
          | Some f \<Rightarrow>
              if \<not> starts_with (ftype f) ''image/'' then (Promise t (Success d), s1)
              else
                (let img = load_image f in
                 case check (settled img) s1 of
                   (ok, s2) \<Rightarrow>
                     if \<not> ok
                     then (Promise (t + resume_tick img) (Failure [(description this,
                             or_default message (description this @ '' metadata is invalid''))]), s2)
                     else (Promise (t + resume_tick img) (Success d), s2))))
       (description this) (transformFn this) (cacheMap this)"

definition query ::
  "(jsval \<Rightarrow> store \<Rightarrow> bool awaitable \<times> store) \<Rightarrow> string \<Rightarrow> zet_schema \<Rightarrow> zet_schema" where
  "query mutationFn errorMessage this =
     ZetSchema
       (\<lambda>value parent opts s. after_base this value JUndefined s (\<lambda>t d s1.
          case mutationFn d s1 of
            (isValid, s2) \<Rightarrow>
              if \<not> settled isValid
              then (Promise (t + resume_tick isValid) (Failure [(description this, errorMessage)]), s2)
              else (Promise (t + resume_tick isValid) (Success d), s2)))
       (description this) (transformFn this) (cacheMap this)"

definition aiValidate ::
  "(jsfile \<Rightarrow> store \<Rightarrow> bool awaitable \<times> store) \<Rightarrow> string option \<Rightarrow> zet_schema \<Rightarrow> zet_schema" where
  "aiValidate check message this =
     ZetSchema
       (\<lambda>value parent opts s. after_base this value JUndefined s (\<lambda>t d s1.
          case file_of d of
            None \<Rightarrow> (Promise t (Success d), s1)
          | Some f \<Rightarrow>
              (case check f s1 of
                 (isValid, s2) \<Rightarrow>
                   if \<not> settled isValid
                   then (Promise (t + resume_tick isValid) (Failure [(description this,
                           or_default message ''AI rejected the file'')]), s2)
                   else (Promise (t + resume_tick isValid) (Success d), s2))))
       (description this) (transformFn this) (cacheMap this)"

section \<open>Primitives and combinators\<close>

definition string :: zet_schema where
  "string =
     ZetSchema
       (\<lambda>value parent opts s.
          case value of
            JStr x \<Rightarrow> (Plain (Success value), s)
          | _ \<Rightarrow> (Plain (Failure [(''value'', ''Expected a string'')]), s))
       ''value'' None None"

definition file_schema :: zet_schema where
  "file_schema =
     ZetSchema
       (\<lambda>value parent opts s.
          case value of
            JFile f \<Rightarrow> (Plain (Success value), s)
          | _ \<Rightarrow> (Plain (Failure [(''value'', ''Expected a file'')]), s))
       ''value'' None None"

definition image_schema :: "(jsfile \<Rightarrow> (int \<times> int) awaitable) \<Rightarrow> zet_schema" where
  "image_schema load_image =
     dimensions load_image
       \<lparr>minWidth = Some 100, maxWidth = None, minHeight = Some 100, maxHeight = None\<rparr> None
       (maxSizeMB 5 None (type [''image/jpeg'', ''image/png''] None file_schema))"

subsection \<open>\<^verbatim>\<open>array\<close>\<close>

text \<open>
  A combinator holds its child schemas as they are when it is built; a stage registered
  on a child afterwards is not seen by it here.
  The callbacks of one batch are all started by \<^verbatim>\<open>batch.map\<close>, in index order, before
  any of them resumes. Each resumes after its own \<^verbatim>\<open>await itemSchema.safeParse(item)\<close>
  and then either records its errors under its index or pushes its data.
  The store is threaded through the started calls in index order, each call with all
  its effects. This is what the source does when no two calls of one batch meet in the
  store: when the item schema has no cache, when its validator answers synchronously,
  or when the items of a batch have different cache keys. When two items of a batch
  share a cache and a key and the validator answers with a promise, the source has
  both miss (the write happens in \<^verbatim>\<open>then\<close>, after both lookups), where the second hits
  here.
\<close>

fun start_items ::
  "zet_schema \<Rightarrow> jsval list \<Rightarrow> store \<Rightarrow> validation_result awaitable list \<times> store" where
  "start_items itemSchema [] s = ([], s)"
| "start_items itemSchema (item # items) s =
     (case safeParse itemSchema item JUndefined ''default'' s of
        (r, s1) \<Rightarrow>
          (case start_items itemSchema items s1 of (rs, s2) \<Rightarrow> (r # rs, s2)))"

text \<open>The order in which awaiting callbacks resume: by turn, equal turns in call order.\<close>

definition settle_order :: "('a \<times> 'b awaitable) list \<Rightarrow> ('a \<times> 'b awaitable) list" where
  "settle_order rs = sort_key (\<lambda>e. resume_tick (snd e)) rs"

definition item_settled ::
  "nat \<Rightarrow> validation_result \<Rightarrow> jsval list \<times> errmap \<Rightarrow> jsval list \<times> errmap" where
  "item_settled pos itemResult acc =
     (case itemResult of
        Failure errs \<Rightarrow>
          (fst acc,
           foldl (\<lambda>errors e. obj_set (nat_to_string pos @ ''.'' @ fst e) (snd e) errors)
             (snd acc) (own_entries errs))
      | Success d \<Rightarrow> (fst acc @ [d], snd acc))"

text \<open>
  \<^verbatim>\<open>await Promise.all(promises)\<close> resumes two turns after the last callback has
  finished.
\<close>

definition all_ticks :: "'a awaitable list \<Rightarrow> nat" where
  "all_ticks rs = (if rs = [] then 1 else fold max (map resume_tick rs) 0 + 2)"

function array_loop ::
  "zet_schema \<Rightarrow> nat \<Rightarrow> jsval list \<Rightarrow> nat \<Rightarrow> jsval list \<times> errmap \<Rightarrow> nat \<Rightarrow> store
   \<Rightarrow> ((jsval list \<times> errmap) \<times> nat) \<times> store" where
  "array_loop itemSchema concurrency value i acc t s =
     (if i < length value \<and> 0 < concurrency then
        (case start_items itemSchema (take concurrency (drop i value)) s of
           (rs, s1) \<Rightarrow>
             array_loop itemSchema concurrency value (i + concurrency)
               (foldl (\<lambda>a e. item_settled (i + fst e) (settled (snd e)) a) acc
                  (settle_order (enumerate 0 rs)))
               (t + all_ticks rs) s1)
      else ((acc, t), s))"
  by pat_completeness auto
termination
  by (relation "measure (\<lambda>(itemSchema, concurrency, value, i, acc, t, s). length value - i)") auto

declare array_loop.simps [simp del]

text \<open>
  \<^verbatim>\<open>options.batchConcurrency || 4\<close>. The batch size is a natural number here; with a
  negative one the loop of the source does not advance.
\<close>

definition array :: "zet_schema \<Rightarrow> nat option \<Rightarrow> zet_schema" where
  "array itemSchema batchConcurrency =
     ZetSchema
       (\<lambda>value parent opts s.
          case value of
            JArr xs \<Rightarrow>
              (case array_loop itemSchema
                      (case batchConcurrency of None \<Rightarrow> 4 | Some c \<Rightarrow> if c = 0 then 4 else c)
                      xs 0 ([], []) 0 s of
                 (((result, errors), t), s1) \<Rightarrow>
                   (Promise t (if errors \<noteq> [] then Failure errors else Success (JArr result)), s1))
          | _ \<Rightarrow> (Promise 0 (Failure [(''value'', ''Expected an array'')]), s))
       ''value'' None None"

text \<open>
  The parts of a result: \<^verbatim>\<open>success\<close>, \<^verbatim>\<open>data\<close> (undefined on a failure) and \<^verbatim>\<open>errors\<close>
  (none on a success). \<open>index_keys\<close> are the keys under which the loop records the
  errors of the element at an index.
\<close>

definition succeeded :: "validation_result \<Rightarrow> bool" where
  "succeeded res = (case res of Success d \<Rightarrow> True | Failure errs \<Rightarrow> False)"

definition data_of :: "validation_result \<Rightarrow> jsval" where
  "data_of res = (case res of Success d \<Rightarrow> d | Failure errs \<Rightarrow> JUndefined)"

definition errors_of :: "validation_result \<Rightarrow> errmap" where
  "errors_of res = (case res of Success d \<Rightarrow> [] | Failure errs \<Rightarrow> errs)"

definition index_keys :: "nat \<times> validation_result awaitable \<Rightarrow> string set" where
  "index_keys e = (\<lambda>k. nat_to_string (fst e) @ ''.'' @ k) ` fst ` set (errors_of (settled (snd e)))"

subsection \<open>\<^verbatim>\<open>object\<close>\<close>

text \<open>
  The fields are started in property order of the shape, the store threaded through
  them as it is through the items of a batch, with the same proviso: two fields that
  share a cache and a key, behind a validator that answers with a promise, both miss in
  the source.
\<close>

definition is_object :: "jsval \<Rightarrow> bool" where
  "is_object value =
     (case value of JObj m \<Rightarrow> True | JArr xs \<Rightarrow> True | JFile f \<Rightarrow> True | _ \<Rightarrow> False)"

fun start_fields ::
  "(string \<times> zet_schema) list \<Rightarrow> jsval \<Rightarrow> store
   \<Rightarrow> (string \<times> validation_result awaitable) list \<times> store" where
  "start_fields [] value s = ([], s)"
| "start_fields (field # others) value s =
     (case safeParse (snd field) (js_get value (fst field)) value ''default'' s of
        (r, s1) \<Rightarrow>
          (case start_fields others value s1 of (rs, s2) \<Rightarrow> ((fst field, r) # rs, s2)))"

definition field_settled ::
  "string \<Rightarrow> validation_result \<Rightarrow> (string \<times> jsval) list \<times> errmap
   \<Rightarrow> (string \<times> jsval) list \<times> errmap" where
  "field_settled key fieldResult acc =
     (case fieldResult of
        Failure errs \<Rightarrow> (fst acc, obj_assign (snd acc) errs)
      | Success d \<Rightarrow> (obj_set key d (fst acc), snd acc))"

text \<open>
  \<open>instance\<close> names the object that \<^verbatim>\<open>object\<close> creates: the validator reads
  \<^verbatim>\<open>instance.formRule\<close> when it runs, not when it is built.
\<close>

definition object :: "nat \<Rightarrow> (string \<times> zet_schema) list \<Rightarrow> zet_schema" where
  "object instance shape =
     ZetSchema
       (\<lambda>value parent opts s.
          if \<not> is_object value then (Promise 0 (Failure [(''value'', ''Expected an object'')]), s)
          else
            (case start_fields (own_entries shape) value s of
               (rs, s1) \<Rightarrow>
                 (let acc = foldl (\<lambda>a e. field_settled (fst e) (settled (snd e)) a) ([], [])
                              (settle_order rs);
                      errors =
                        (if snd acc = [] then
                           (case formRules s1 instance of
                              None \<Rightarrow> snd acc
                            | Some rule \<Rightarrow>
                                (case rule (JObj (fst acc)) of
                                   None \<Rightarrow> snd acc
                                 | Some ruleResult \<Rightarrow> obj_set ''form'' ruleResult (snd acc)))
                         else snd acc)
                  in (Promise (all_ticks (map snd rs))
                        (if errors \<noteq> [] then Failure errors else Success (JObj (fst acc))), s1))))
       ''value'' None None"

text \<open>\<^verbatim>\<open>formRule(schemaInstance, rule)\<close> assigns the property of the given instance.\<close>

definition formRule :: "nat \<Rightarrow> (jsval \<Rightarrow> string option) \<Rightarrow> store \<Rightarrow> store" where
  "formRule instance rule s = s\<lparr>formRules := (formRules s)(instance \<mapsto> rule)\<rparr>"

text \<open>
  The error maps of the fields that failed, in the order in which the fields settle.
\<close>

definition field_failures :: "(string \<times> validation_result awaitable) list \<Rightarrow> errmap list" where
  "field_failures rs =
     concat (map (\<lambda>e. case settled (snd e) of Failure errs \<Rightarrow> [errs] | Success d \<Rightarrow> [])
       (settle_order rs))"

section \<open>The form hook\<close>

text \<open>
  \<^verbatim>\<open>validate\<close> calls \<^verbatim>\<open>schemaInstance.safeParse(data, data, stage, { onProgress })\<close>.
  \<^verbatim>\<open>safeParse\<close> declares three parameters and does not read \<^verbatim>\<open>arguments\<close>: a fourth
  argument is dropped by the call.
\<close>

definition safeParse_surplus ::
  "zet_schema \<Rightarrow> jsval \<Rightarrow> jsval \<Rightarrow> string \<Rightarrow> progress option \<Rightarrow> store
   \<Rightarrow> validation_result awaitable \<times> store" where
  "safeParse_surplus this value parent stageName surplus s = safeParse this value parent stageName s"

text \<open>
  Of the hook's state only the errors, the value and the upload progress are kept; the
  result is whether validation passed.
\<close>

definition validate ::
  "zet_schema \<Rightarrow> (string \<Rightarrow> string \<Rightarrow> string) option \<Rightarrow> jsval \<Rightarrow> string \<Rightarrow> form_state \<times> store
   \<Rightarrow> bool \<times> form_state \<times> store" where
  "validate schemaInstance errorFormatter data stageName st =
     (case safeParse_surplus schemaInstance data data stageName
             (Some (\<lambda>field progress s.
                s\<lparr>uploadProgress := obj_set field progress (uploadProgress s)\<rparr>))
             (snd st) of
        (r, s1) \<Rightarrow>
          (case settled r of
             Failure errors \<Rightarrow>
               (False,
                (fst st)\<lparr>formErrors :=
                   (case errorFormatter of
                      None \<Rightarrow> errors
                    | Some fmt \<Rightarrow> foldl (\<lambda>m e. obj_set (fst e) (fmt (fst e) (snd e)) m) []
                                    (own_entries errors))\<rparr>,
                s1)
           | Success d \<Rightarrow> (True, (fst st)\<lparr>formValue := d, formErrors := []\<rparr>, s1)))"

section \<open>Object identity\<close>

text \<open>
  Schemas are objects. The heap lists the instances created so far; an address is a
  position in it. \<^verbatim>\<open>new ZetSchema(...)\<close> appends an instance.
\<close>

type_synonym heap = "zet_schema list"

definition new_schema :: "heap \<Rightarrow> zet_schema \<Rightarrow> nat \<times> heap" where
  "new_schema h n = (length h, h @ [n])"

text \<open>The derivation methods, as calls with their arguments.\<close>

datatype derivation =
    Describe string
  | SetTransform "jsval \<Rightarrow> jsval"
  | Optional
  | Extend
  | When "jsval \<Rightarrow> bool" "zet_schema \<Rightarrow> zet_schema" "zet_schema \<Rightarrow> zet_schema"
  | Type "string list" "string option"
  | MaxSizeMB int "string option"
  | Dimensions "jsfile \<Rightarrow> (int \<times> int) awaitable" bounds "string option"
  | MaxDuration "jsfile \<Rightarrow> int awaitable" int "string option"
  | NamePattern "string \<Rightarrow> bool" "string option"
  | Extension "string list" "string option"
  | Compress "jsfile \<Rightarrow> (int \<times> int) awaitable" "jsfile \<Rightarrow> rat \<Rightarrow> nat awaitable" int rat
      "string option"
  | ServerValidate "jsfile \<Rightarrow> (int \<Rightarrow> store \<Rightarrow> store) \<Rightarrow> store \<Rightarrow> bool awaitable \<times> store"
      "string option"
  | Metadata "jsfile \<Rightarrow> (int \<times> int) awaitable" "int \<times> int \<Rightarrow> store \<Rightarrow> bool \<times> store"
      "string option"
  | Query "jsval \<Rightarrow> store \<Rightarrow> bool awaitable \<times> store" string
  | AiValidate "jsfile \<Rightarrow> store \<Rightarrow> bool awaitable \<times> store" "string option"

fun derive :: "derivation \<Rightarrow> zet_schema \<Rightarrow> zet_schema" where
  "derive (Describe d) this = describe d this"
| "derive (SetTransform fn) this = setTransform fn this"
| "derive Optional this = optional this"
| "derive Extend this = extend this"
| "derive (When c t e) this = when_schema c t e this"
| "derive (Type ts m) this = type ts m this"
| "derive (MaxSizeMB n m) this = maxSizeMB n m this"
| "derive (Dimensions l b m) this = dimensions l b m this"
| "derive (MaxDuration l n m) this = maxDuration l n m this"
| "derive (NamePattern r m) this = namePattern r m this"
| "derive (Extension es m) this = extension es m this"
| "derive (Compress l b n q m) this = compress l b n q m this"
| "derive (ServerValidate c m) this = serverValidate c m this"
| "derive (Metadata l c m) this = metadata l c m this"
| "derive (Query f m) this = query f m this"
| "derive (AiValidate c m) this = aiValidate c m this"

text \<open>A derivation method called on the instance at \<open>a\<close>: the body is one \<^verbatim>\<open>new\<close>.\<close>

definition call_method :: "heap \<Rightarrow> nat \<Rightarrow> derivation \<Rightarrow> nat \<times> heap" where
  "call_method h a m = new_schema h (derive m (h ! a))"

text \<open>
  \<^verbatim>\<open>stage\<close> called on the instance at \<open>a\<close>: \<^verbatim>\<open>this.stages[name] = fn(this).validator;
  return this\<close>.
\<close>

definition call_stage ::
  "heap \<Rightarrow> nat \<Rightarrow> string \<Rightarrow> (zet_schema \<Rightarrow> zet_schema) \<Rightarrow> nat \<times> heap" where
  "call_stage h a name fn = (a, h[a := stage name fn (h ! a)])"

text \<open>
  The refinement methods among the derivations, and the parent each hands to the
  validator of its base: \<^verbatim>\<open>serverValidate\<close> passes its own parent on, every other
  refinement calls \<^verbatim>\<open>this.validator(value)\<close>.
\<close>

fun is_refinement :: "derivation \<Rightarrow> bool" where
  "is_refinement (Describe d) = False"
| "is_refinement (SetTransform fn) = False"
| "is_refinement Optional = False"
| "is_refinement Extend = False"
| "is_refinement (When c t e) = False"
| "is_refinement m = True"

fun base_parent :: "derivation \<Rightarrow> jsval \<Rightarrow> jsval" where
  "base_parent (ServerValidate c m) parent = parent"
| "base_parent m parent = JUndefined"

section \<open>Example inputs\<close>

definition empty_store :: store where
  "empty_store =
     \<lparr>maps = (\<lambda>c. []), fresh = 0, formRules = (\<lambda>i. None), calls = [], uploadProgress = []\<rparr>"

text \<open>A validator that accepts everything and records each of its runs.\<close>

definition counting_stub :: validator where
  "counting_stub =
     (\<lambda>value parent opts s. (Plain (Success value), s\<lparr>calls := calls s @ [''validator'']\<rparr>))"

definition cached_stub :: zet_schema where
  "cached_stub = fst (setCache (ZetSchema counting_stub ''value'' None None) empty_store)"

definition cached_stub_store :: store where
  "cached_stub_store = snd (setCache (ZetSchema counting_stub ''value'' None None) empty_store)"

definition photo :: jsfile where
  "photo = \<lparr>fname = ''photo.png'', ftype = ''image/png'', fsize = 5242880\<rparr>"

definition scan :: jsfile where
  "scan = \<lparr>fname = ''scan.pdf'', ftype = ''application/pdf'', fsize = 5242881\<rparr>"

text \<open>
  A server check that records its run, reports progress 50 through the callback it is
  given, and accepts after five turns.
\<close>

definition upload_check ::
  "jsfile \<Rightarrow> (int \<Rightarrow> store \<Rightarrow> store) \<Rightarrow> store \<Rightarrow> bool awaitable \<times> store" where
  "upload_check =
     (\<lambda>f onProgress s. (Promise 5 True, onProgress 50 (s\<lparr>calls := calls s @ [''check'']\<rparr>)))"

definition avatar_field :: zet_schema where
  "avatar_field = serverValidate upload_check None (describe ''avatar'' file_schema)"

definition avatar_form :: zet_schema where
  "avatar_form = object 0 [(''avatar'', avatar_field)]"

definition blank_form :: form_state where
  "blank_form = \<lparr>formValue = JObj [], formErrors = []\<rparr>"

text \<open>
  A condition on the parent, \<^verbatim>\<open>parent.kind === "premium"\<close>, and two branches that fail
  with different messages on a file of more than two megabytes.
\<close>

definition is_premium :: "jsval \<Rightarrow> bool" where
  "is_premium parent = (js_get parent ''kind'' = JStr ''premium'')"

definition tiered :: zet_schema where
  "tiered =
     when_schema is_premium (maxSizeMB 2 (Some ''premium: too large''))
       (maxSizeMB 1 (Some ''basic: too large'')) file_schema"

text \<open>
  A conditional schema whose first branch rejects every non-empty file, and a file of
  one byte.
\<close>

definition premium_only :: zet_schema where
  "premium_only =
     when_schema is_premium (maxSizeMB 0 (Some ''premium: too large''))
       (maxSizeMB 1 (Some ''basic: too large'')) file_schema"

definition pixel :: jsfile where
  "pixel = \<lparr>fname = ''pixel.png'', ftype = ''image/png'', fsize = 1\<rparr>"

definition premium_parent :: jsval where
  "premium_parent = JObj [(''kind'', JStr ''premium'')]"

definition tiered_form :: zet_schema where
  "tiered_form = object 4 [(''file'', tiered)]"

text \<open>
  A form of two file fields that both reject any file of more than zero megabytes; the
  first field is described as \<^verbatim>\<open>b\<close>, the second as \<^verbatim>\<open>1\<close>.
\<close>

definition numbered_form :: zet_schema where
  "numbered_form =
     object 1 [(''x'', maxSizeMB 0 None (describe ''b'' file_schema)),
               (''y'', maxSizeMB 0 None (describe ''1'' file_schema))]"

definition two_photos :: jsval where
  "two_photos = JObj [(''x'', JFile photo), (''y'', JFile photo)]"

definition shout :: "jsval \<Rightarrow> jsval" where
  "shout d = (case d of JStr x \<Rightarrow> JStr (x @ ''!'') | _ \<Rightarrow> d)"

text \<open>The form of the specification's example, and its candidate.\<close>

definition person_shape :: "(string \<times> zet_schema) list" where
  "person_shape = [(''name'', string), (''age'', string)]"

definition person_form :: zet_schema where
  "person_form = object 2 person_shape"

definition person :: jsval where
  "person = JObj [(''name'', JNum 123), (''age'', JStr ''5'')]"

text \<open>
  A server check whose answer takes as many turns as the file has bytes, and a list
  schema whose items are checked by it.
\<close>

definition sized_check ::
  "jsfile \<Rightarrow> (int \<Rightarrow> store \<Rightarrow> store) \<Rightarrow> store \<Rightarrow> bool awaitable \<times> store" where
  "sized_check = (\<lambda>f onProgress s. (Promise (fsize f) True, s))"

definition big :: jsfile where
  "big = \<lparr>fname = ''big.png'', ftype = ''image/png'', fsize = 9\<rparr>"

definition small :: jsfile where
  "small = \<lparr>fname = ''small.png'', ftype = ''image/png'', fsize = 2\<rparr>"

definition gallery :: zet_schema where
  "gallery = array (serverValidate sized_check None file_schema) None"

text \<open>A schema built with the constructor whose validator fails without any message.\<close>

definition silent_reject :: zet_schema where
  "silent_reject =
     ZetSchema
       (\<lambda>value parent opts s.
          case value of
            JStr x \<Rightarrow> (Plain (Success value), s)
          | _ \<Rightarrow> (Plain (Failure []), s))
       ''value'' None None"

section \<open>Basic facts\<close>

lemma validator_ZetSchema [simp]: "validator (ZetSchema v d t c) = v"
  by (simp add: ZetSchema_def)

lemma stages_ZetSchema [simp]: "stages (ZetSchema v d t c) = [''default'' \<mapsto> v]"
  by (simp add: ZetSchema_def)

lemma description_ZetSchema [simp]: "description (ZetSchema v d t c) = d"
  by (simp add: ZetSchema_def)

lemma transformFn_ZetSchema [simp]: "transformFn (ZetSchema v d t c) = t"
  by (simp add: ZetSchema_def)

lemma cacheMap_ZetSchema [simp]: "cacheMap (ZetSchema v d t c) = c"
  by (simp add: ZetSchema_def)

lemma map_of_obj_set: "map_of (obj_set k v m) = (map_of m)(k \<mapsto> v)"
  by (induction m) auto

lemma file_schema_rejects_string:
  "validator file_schema (JStr x) parent opts s
   = (Plain (Failure [(''value'', ''Expected a file'')]), s)"
  by (simp add: file_schema_def)

lemma file_schema_accepts:
  "validator file_schema (JFile f) parent opts s = (Plain (Success (JFile f)), s)"
  by (simp add: file_schema_def)

section \<open>The cache of \<^verbatim>\<open>safeParse\<close>\<close>

lemma cache_get_after_set:
  "cacheMap this = Some c \<Longrightarrow> cache_get this key (cache_set this key res s) = Some res"
  by (simp add: cache_get_def cache_set_def map_of_obj_set)

lemma safeParse_hit:
  "cache_get this (cache_key stageName value) s = Some cached \<Longrightarrow>
   safeParse this value parent stageName s = (Plain cached, s)"
  by (simp add: safeParse_def)

lemma safeParse_uncached:
  "cacheMap this = None \<Longrightarrow>
   safeParse this value parent stageName s =
     (case stage_validator this stageName value parent None s of
        (Promise d res, s1) \<Rightarrow> (Promise (d + 1) (finalRes this res), s1)
      | (Plain result, s1) \<Rightarrow> (Plain (finalRes this result), s1))"
  by (simp add: safeParse_def cache_get_def cache_set_def split: prod.splits awaitable.splits)

lemma safeParse_miss:
  assumes "cache_get this (cache_key stageName value) s = None"
  shows "settled (fst (safeParse this value parent stageName s))
         = finalRes this (settled (fst (stage_validator this stageName value parent None s)))"
proof -
  obtain r s1 where run: "stage_validator this stageName value parent None s = (r, s1)"
    by (cases "stage_validator this stageName value parent None s")
  show ?thesis
    using assms run by (cases r) (simp_all add: safeParse_def)
qed

text \<open>After a call the cache holds the result of that call under the key of that call.\<close>

lemma safeParse_leaves_entry:
  assumes "cacheMap this = Some c"
  shows "cache_get this (cache_key stageName value) (snd (safeParse this value parent stageName s))
         = Some (settled (fst (safeParse this value parent stageName s)))"
proof (cases "cache_get this (cache_key stageName value) s")
  case (Some cached)
  then show ?thesis by (simp add: safeParse_hit)
next
  case None
  obtain r s1 where run: "stage_validator this stageName value parent None s = (r, s1)"
    by (cases "stage_validator this stageName value parent None s")
  show ?thesis
    using None run assms by (cases r) (simp_all add: safeParse_def cache_get_after_set)
qed

lemma safeParse_second_call:
  assumes "cacheMap this = Some c" and "cache_key stageName' value' = cache_key stageName value"
  shows "safeParse this value' parent' stageName' (snd (safeParse this value parent stageName s))
         = (Plain (settled (fst (safeParse this value parent stageName s))),
            snd (safeParse this value parent stageName s))"
  using safeParse_leaves_entry [OF assms(1), of stageName "value" parent s] assms(2)
  by (simp add: safeParse_hit)

lemma cached_stub_has_cache: "cacheMap cached_stub = Some 0"
  by (simp add: cached_stub_def setCache_def empty_store_def)

lemma cached_stub_first:
  "safeParse cached_stub (JStr ''a'') JUndefined ''default'' cached_stub_store
   = (Plain (Success (JStr ''a'')),
      cached_stub_store
        \<lparr>maps := (maps cached_stub_store)(0 := [(''default:\"a\"'', Success (JStr ''a''))]),
         calls := [''validator'']\<rparr>)"
  by (simp add: safeParse_def cached_stub_def cached_stub_store_def setCache_def
      empty_store_def cache_get_def cache_set_def cache_key_def stage_validator_def
      counting_stub_def finalRes_def apply_transform_def json_quote_def json_escape_def)

lemma cached_stub_photo:
  "safeParse cached_stub (JFile photo) JUndefined ''default'' cached_stub_store
   = (Plain (Success (JFile photo)),
      cached_stub_store
        \<lparr>maps := (maps cached_stub_store)(0 := [(''default:{}'', Success (JFile photo))]),
         calls := [''validator'']\<rparr>)"
  by (simp add: safeParse_def cached_stub_def cached_stub_store_def setCache_def
      empty_store_def cache_get_def cache_set_def cache_key_def stage_validator_def
      counting_stub_def finalRes_def apply_transform_def)

text \<open>
  C2. A schema with a cache, evaluated twice through \<^verbatim>\<open>safeParse\<close> with the same
  candidate and stage (whatever the parents), returns the same result the second time,
  as a plain value, and the second call leaves the store as the first call left it: no
  validator, check or transform runs again. When the first call missed, its result is
  the validator's with the transform applied.
\<close>

theorem safeParse_twice_cached:
  assumes "cacheMap this = Some c"
  shows "safeParse this value parent' stageName (snd (safeParse this value parent stageName s))
         = (Plain (settled (fst (safeParse this value parent stageName s))),
            snd (safeParse this value parent stageName s))
       \<and> (cache_get this (cache_key stageName value) s = None \<longrightarrow>
            settled (fst (safeParse this value parent stageName s))
            = finalRes this (settled (fst (stage_validator this stageName value parent None s))))"
  using safeParse_second_call [OF assms, of stageName "value" stageName "value"] safeParse_miss
  by simp

theorem safeParse_twice_cached_witness:
  "cacheMap cached_stub = Some 0
   \<and> cache_get cached_stub (cache_key ''default'' (JStr ''a'')) cached_stub_store = None
   \<and> safeParse cached_stub (JStr ''a'') JNull ''default''
         (snd (safeParse cached_stub (JStr ''a'') JUndefined ''default'' cached_stub_store))
       = (Plain (Success (JStr ''a'')),
          snd (safeParse cached_stub (JStr ''a'') JUndefined ''default'' cached_stub_store))
   \<and> calls (snd (safeParse cached_stub (JStr ''a'') JUndefined ''default'' cached_stub_store))
       = [''validator'']"
proof -
  have m: "cache_get cached_stub (cache_key ''default'' (JStr ''a'')) cached_stub_store = None"
    by (simp add: cache_get_def cached_stub_has_cache cached_stub_store_def setCache_def
        empty_store_def)
  have "safeParse cached_stub (JStr ''a'') JNull ''default''
         (snd (safeParse cached_stub (JStr ''a'') JUndefined ''default'' cached_stub_store))
       = (Plain (Success (JStr ''a'')),
          snd (safeParse cached_stub (JStr ''a'') JUndefined ''default'' cached_stub_store))
   \<and> calls (snd (safeParse cached_stub (JStr ''a'') JUndefined ''default'' cached_stub_store))
       = [''validator'']"
    using safeParse_twice_cached [OF cached_stub_has_cache, of "JStr ''a''" JNull "''default''"
        JUndefined cached_stub_store]
    by (simp add: cached_stub_first)
  then show ?thesis
    using cached_stub_has_cache m by simp
qed

text \<open>
  C10. The cache key is the stage name, a colon and the \<^verbatim>\<open>JSON.stringify\<close> text of the
  candidate. Two candidates with the same text have the same key, so on a schema with
  a cache the call for the second returns what the call for the first left in the
  cache, and nothing is evaluated for the second. Two different files are such
  candidates: both serialise as \<^verbatim>\<open>{}\<close>.
\<close>

theorem safeParse_key_collision:
  assumes "cacheMap this = Some c" and "stringify value' = stringify value"
  shows "cache_key stageName value
           = stageName @ '':'' @ (case stringify value of None \<Rightarrow> ''undefined'' | Some t \<Rightarrow> t)
       \<and> cache_key stageName value' = cache_key stageName value
       \<and> stringify (JFile f) = Some ''{}''
       \<and> safeParse this value' parent' stageName (snd (safeParse this value parent stageName s))
           = (Plain (settled (fst (safeParse this value parent stageName s))),
              snd (safeParse this value parent stageName s))"
proof -
  have k: "cache_key stageName value' = cache_key stageName value"
    using assms(2) by (simp add: cache_key_def)
  show ?thesis
    using k safeParse_second_call [OF assms(1) k] by (simp add: cache_key_def)
qed

theorem safeParse_key_collision_witness:
  "cacheMap cached_stub = Some 0
   \<and> scan \<noteq> photo
   \<and> stringify (JFile scan) = stringify (JFile photo)
   \<and> cache_key ''default'' (JFile scan) = ''default:{}''
   \<and> safeParse cached_stub (JFile scan) JUndefined ''default''
         (snd (safeParse cached_stub (JFile photo) JUndefined ''default'' cached_stub_store))
       = (Plain (Success (JFile photo)),
          snd (safeParse cached_stub (JFile photo) JUndefined ''default'' cached_stub_store))
   \<and> calls (snd (safeParse cached_stub (JFile photo) JUndefined ''default'' cached_stub_store))
       = [''validator'']"
proof -
  have e: "stringify (JFile scan) = stringify (JFile photo)"
    by simp
  have d: "scan \<noteq> photo"
    by (simp add: scan_def photo_def)
  show ?thesis
    using cached_stub_has_cache d e
      safeParse_key_collision [OF cached_stub_has_cache e, where stageName = "''default''"
        and parent = JUndefined and parent' = JUndefined and s = cached_stub_store and f = photo]
    by (simp add: cached_stub_photo cache_key_def)
qed

section \<open>Refinements\<close>

lemma after_base_failure:
  "validator this value parent None s = (r, s1) \<Longrightarrow> settled r = Failure errors \<Longrightarrow>
   after_base this value parent s rest = (Promise (resume_tick r) (Failure errors), s1)"
  by (simp add: after_base_def)

text \<open>
  The short circuit, relative to the call the refinement makes. For every refinement
  method and every candidate on which the validator of the base schema fails when it
  is called as the refinement calls it (without the parent, except by
  \<^verbatim>\<open>serverValidate\<close>): the validator of the refined schema returns that failure with the
  same error map, and the store is the one the base validator left. Nothing the
  refinement would do after the base (its comparison, a probe, a check supplied by the
  caller) takes place.
\<close>

theorem refinement_short_circuit:
  assumes "is_refinement m"
    and "validator this value (base_parent m parent) None s = (r, s1)"
    and "settled r = Failure errors"
  shows "validator (derive m this) value parent opts s
         = (Promise (resume_tick r) (Failure errors), s1)"
  using assms
  by (cases m)
     (simp_all add: type_def maxSizeMB_def dimensions_def maxDuration_def namePattern_def
        extension_def compress_def serverValidate_def metadata_def query_def aiValidate_def
        after_base_failure)

theorem refinement_short_circuit_witness:
  "is_refinement (ServerValidate upload_check None)
   \<and> validator file_schema (JStr ''x'') (base_parent (ServerValidate upload_check None) JNull)
         None empty_store
       = (Plain (Failure [(''value'', ''Expected a file'')]), empty_store)
   \<and> validator (derive (ServerValidate upload_check None) file_schema) (JStr ''x'') JNull None
         empty_store
       = (Promise 1 (Failure [(''value'', ''Expected a file'')]), empty_store)
   \<and> calls empty_store = []"
proof -
  have r: "is_refinement (ServerValidate upload_check None)" by simp
  have b: "validator file_schema (JStr ''x'')
             (base_parent (ServerValidate upload_check None) JNull) None empty_store
           = (Plain (Failure [(''value'', ''Expected a file'')]), empty_store)"
    by (simp add: file_schema_rejects_string)
  have f: "settled (Plain (Failure [(''value'', ''Expected a file'')]) :: validation_result awaitable)
           = Failure [(''value'', ''Expected a file'')]" by simp
  show ?thesis
    using r b refinement_short_circuit [OF r b f, where opts = None]
    by (simp add: empty_store_def)
qed

lemma premium_only_validator:
  "validator premium_only (JFile pixel) parent opts s
   = (Promise 1
        (if is_premium (or_empty parent) then Failure [(''value'', ''premium: too large'')]
         else Success (JFile pixel)), s)"
  by (simp add: premium_only_def when_schema_def maxSizeMB_def after_base_def file_schema_def
      file_of_def pixel_def or_default_def)

lemma premium_parent_is_premium: "is_premium (or_empty premium_parent)"
  by (simp add: is_premium_def or_empty_def premium_parent_def js_get_def)

lemma no_parent_is_not_premium: "\<not> is_premium (or_empty JUndefined)"
  by (simp add: is_premium_def or_empty_def js_get_def)

lemma stage_validator_default:
  "stages this ''default'' = Some (validator this) \<Longrightarrow>
   stage_validator this ''default'' = validator this"
  by (simp add: stage_validator_def)

text \<open>
  C3, evaluated. The base is a conditional schema, the parent says \<^verbatim>\<open>premium\<close>, the
  candidate is a file of one byte. Evaluated with that parent the base fails, through
  its validator and through \<^verbatim>\<open>safeParse\<close> alike. The base refined by \<^verbatim>\<open>type\<close>, evaluated
  on the same candidate with the same parent, succeeds: the refinement calls the
  validator of its base without the parent, the condition sees the empty object, and
  the other branch runs. The failure of the base is not returned.
\<close>

theorem refinement_drops_parent:
  "validator premium_only (JFile pixel) premium_parent None empty_store
     = (Promise 1 (Failure [(''value'', ''premium: too large'')]), empty_store)
   \<and> safeParse premium_only (JFile pixel) premium_parent ''default'' empty_store
     = (Promise 2 (Failure [(''value'', ''premium: too large'')]), empty_store)
   \<and> validator (type [''image/png''] None premium_only) (JFile pixel) premium_parent None
       empty_store
     = (Promise 2 (Success (JFile pixel)), empty_store)
   \<and> safeParse (type [''image/png''] None premium_only) (JFile pixel) premium_parent ''default''
       empty_store
     = (Promise 3 (Success (JFile pixel)), empty_store)"
proof -
  have b: "cacheMap premium_only = None" "transformFn premium_only = None"
    "stage_validator premium_only ''default'' = validator premium_only"
    by (simp_all add: premium_only_def when_schema_def file_schema_def stage_validator_def)
  have r: "cacheMap (type [''image/png''] None premium_only) = None"
    "transformFn (type [''image/png''] None premium_only) = None"
    "stage_validator (type [''image/png''] None premium_only) ''default''
     = validator (type [''image/png''] None premium_only)"
    by (simp_all add: type_def b stage_validator_def)
  have t: "validator (type [''image/png''] None premium_only) (JFile pixel) parent opts s
           = (Promise 2 (Success (JFile pixel)), s)" for parent opts s
    by (simp add: type_def after_base_def premium_only_validator no_parent_is_not_premium
        file_of_def)
       (simp add: pixel_def)
  show ?thesis
    by (simp add: premium_only_validator premium_parent_is_premium safeParse_uncached b r t
        finalRes_def apply_transform_def)
qed

text \<open>
  \<^verbatim>\<open>serverValidate\<close>, the one refinement that hands the parent on, returns the failure
  of the same base on the same input.
\<close>

lemma serverValidate_keeps_parent:
  "validator (serverValidate upload_check None premium_only) (JFile pixel) premium_parent None
     empty_store
   = (Promise 2 (Failure [(''value'', ''premium: too large'')]), empty_store)"
  by (simp add: serverValidate_def after_base_def premium_only_validator
      premium_parent_is_premium)

text \<open>
  An extension whose lower-case form is a name every object inherits allows no type,
  not even the type \<^verbatim>\<open>application/constructor\<close>.
\<close>

lemma extension_inherited_name_allows_nothing:
  "validator (extension [''constructor''] None file_schema)
     (JFile \<lparr>fname = ''a'', ftype = ''application/constructor'', fsize = 1\<rparr>) parent opts s
   = (Promise 1 (Failure [(''value'', ''value must have one of these extensions: constructor'')]), s)"
  by (simp add: extension_def type_def after_base_def file_schema_def file_of_def mimeMap_def
      to_lower_def inherited_lower_def or_default_def)

text \<open>
  C7. A size ceiling of \<open>L\<close> megabytes, on a candidate for which the base validator
  answers a file: a file of exactly \<open>L * 1024 * 1024\<close> bytes is passed through
  unchanged, and one of \<open>L * 1024 * 1024 + 1\<close> bytes is rejected with the single entry
  keyed by the description of the schema (the message given, or the generated one).
\<close>

theorem maxSizeMB_boundary:
  assumes "validator this value JUndefined None s = (r, s1)"
    and "settled r = Success (JFile f)"
  shows "(fsize f = L * 1024 * 1024 \<longrightarrow>
            validator (maxSizeMB (int L) message this) value parent opts s
            = (Promise (resume_tick r) (Success (JFile f)), s1))
       \<and> (fsize f = L * 1024 * 1024 + 1 \<longrightarrow>
            validator (maxSizeMB (int L) message this) value parent opts s
            = (Promise (resume_tick r)
                 (Failure [(description this,
                    or_default message
                      (description this @ '' must not exceed '' @ int_to_string (int L)
                        @ ''MB''))]), s1))"
  using assms by (simp add: maxSizeMB_def after_base_def file_of_def)

lemma nat_to_string_5: "nat_to_string 5 = ''5''"
  by (simp add: nat_to_string.simps digit_char_def)

theorem maxSizeMB_boundary_witness:
  "validator (maxSizeMB 5 None file_schema) (JFile photo) JUndefined None empty_store
     = (Promise 1 (Success (JFile photo)), empty_store)
   \<and> fsize photo = 5242880
   \<and> validator (maxSizeMB 5 None file_schema) (JFile scan) JUndefined None empty_store
     = (Promise 1 (Failure [(''value'', ''value must not exceed 5MB'')]), empty_store)
   \<and> fsize scan = 5242881"
proof -
  have p: "validator file_schema (JFile photo) JUndefined None empty_store
           = (Plain (Success (JFile photo)), empty_store)"
    by (rule file_schema_accepts)
  have q: "validator file_schema (JFile scan) JUndefined None empty_store
           = (Plain (Success (JFile scan)), empty_store)"
    by (rule file_schema_accepts)
  have d: "description file_schema = ''value''"
    by (simp add: file_schema_def)
  show ?thesis
    using maxSizeMB_boundary [OF p, where f = photo and L = 5 and message = None
          and parent = JUndefined and opts = None]
      maxSizeMB_boundary [OF q, where f = scan and L = 5 and message = None
          and parent = JUndefined and opts = None]
    by (simp add: photo_def scan_def d or_default_def int_to_string_def nat_to_string_5)
qed

section \<open>Conditional branching\<close>

text \<open>
  C8. The validator of a conditional schema applies the condition to the parent it is
  given, or to the empty object when it is given none, and then runs the validator of
  exactly one schema: the one the first builder makes from the receiver when the
  condition holds, the one the second builder makes when it does not. Result and store
  are those of that one run.
\<close>

theorem when_runs_one_branch:
  "validator (when_schema condition then_branch otherwise this) value parent opts s
   = (if condition (or_empty parent) then validator (then_branch this) value parent None s
      else validator (otherwise this) value parent None s)
   \<and> or_empty JUndefined = JObj []"
  by (simp add: when_schema_def or_empty_def)

theorem when_runs_one_branch_witness:
  "validator tiered (JFile photo) (JObj [(''kind'', JStr ''premium'')]) None empty_store
     = (Promise 1 (Failure [(''value'', ''premium: too large'')]), empty_store)
   \<and> validator tiered (JFile photo) (JObj [(''kind'', JStr ''basic'')]) None empty_store
     = (Promise 1 (Failure [(''value'', ''basic: too large'')]), empty_store)
   \<and> validator tiered (JFile photo) JUndefined None empty_store
     = (Promise 1 (Failure [(''value'', ''basic: too large'')]), empty_store)"
  using when_runs_one_branch [of is_premium "maxSizeMB 2 (Some ''premium: too large'')"
      "maxSizeMB 1 (Some ''basic: too large'')" file_schema "JFile photo"
      "JObj [(''kind'', JStr ''premium'')]" None empty_store]
    when_runs_one_branch [of is_premium "maxSizeMB 2 (Some ''premium: too large'')"
      "maxSizeMB 1 (Some ''basic: too large'')" file_schema "JFile photo"
      "JObj [(''kind'', JStr ''basic'')]" None empty_store]
    when_runs_one_branch [of is_premium "maxSizeMB 2 (Some ''premium: too large'')"
      "maxSizeMB 1 (Some ''basic: too large'')" file_schema "JFile photo"
      JUndefined None empty_store]
  by (simp add: tiered_def is_premium_def or_empty_def js_get_def maxSizeMB_def after_base_def
      file_schema_def file_of_def photo_def or_default_def)

section \<open>Which methods create an instance\<close>

text \<open>
  C5. A derivation method (description, transform, optional, extend, conditional
  branching and every refinement) called on an instance returns the address of a new
  instance, holding the derived schema, and leaves every instance that existed, the
  receiver among them, as it was. Stage registration returns the address of the
  receiver; it changes the stage table of the receiver at the given name and nothing
  else in the heap.
\<close>

theorem derivations_and_identity:
  assumes "a < length h"
  shows "fst (call_method h a m) = length h
       \<and> fst (call_method h a m) \<noteq> a
       \<and> snd (call_method h a m) ! fst (call_method h a m) = derive m (h ! a)
       \<and> take (length h) (snd (call_method h a m)) = h
       \<and> fst (call_stage h a name fn) = a
       \<and> length (snd (call_stage h a name fn)) = length h
       \<and> stages (snd (call_stage h a name fn) ! a)
           = (stages (h ! a))(name \<mapsto> validator (fn (h ! a)))
       \<and> validator (snd (call_stage h a name fn) ! a) = validator (h ! a)
       \<and> description (snd (call_stage h a name fn) ! a) = description (h ! a)
       \<and> transformFn (snd (call_stage h a name fn) ! a) = transformFn (h ! a)
       \<and> cacheMap (snd (call_stage h a name fn) ! a) = cacheMap (h ! a)
       \<and> (snd (call_stage h a name fn))[a := h ! a] = h"
  using assms by (simp add: call_method_def new_schema_def call_stage_def stage_def)

theorem derivations_and_identity_witness:
  "(0::nat) < length [file_schema]
   \<and> call_method [file_schema] 0 (Describe ''avatar'')
       = (1, [file_schema, describe ''avatar'' file_schema])
   \<and> fst (call_stage [file_schema] 0 ''draft'' (maxSizeMB 1 None)) = 0
   \<and> length (snd (call_stage [file_schema] 0 ''draft'' (maxSizeMB 1 None))) = 1
   \<and> stages (snd (call_stage [file_schema] 0 ''draft'' (maxSizeMB 1 None)) ! 0) ''draft''
       = Some (validator (maxSizeMB 1 None file_schema))
   \<and> stages file_schema ''draft'' = None"
  using derivations_and_identity [of 0 "[file_schema]" "Describe ''avatar''" "''draft''"
      "maxSizeMB 1 None"]
  by (simp add: call_method_def new_schema_def file_schema_def)

section \<open>The progress callback\<close>

lemma avatar_field_direct:
  "validator avatar_field (JFile photo) parent opts s
   = (Promise 7 (Success (JFile photo)),
      (case opts of None \<Rightarrow> (\<lambda>s. s) | Some onProgress \<Rightarrow> onProgress ''avatar'' 50)
        (s\<lparr>calls := calls s @ [''check'']\<rparr>))"
  by (simp add: avatar_field_def serverValidate_def describe_def after_base_def file_schema_def
      file_of_def upload_check_def split: option.splits)

lemma avatar_field_safeParse:
  "safeParse avatar_field (JFile photo) parent ''default'' s
   = (Promise 8 (Success (JFile photo)), s\<lparr>calls := calls s @ [''check'']\<rparr>)"
proof -
  have c: "cacheMap avatar_field = None"
    by (simp add: avatar_field_def serverValidate_def describe_def file_schema_def)
  have t: "transformFn avatar_field = None"
    by (simp add: avatar_field_def serverValidate_def describe_def file_schema_def)
  have v: "stage_validator avatar_field ''default'' = validator avatar_field"
    by (simp add: stage_validator_def avatar_field_def serverValidate_def)
  show ?thesis
    by (simp add: safeParse_uncached [OF c] v avatar_field_direct finalRes_def
        apply_transform_def t)
qed

lemma own_entries_avatar: "own_entries [(''avatar'', x)] = [(''avatar'', x)]"
  by (simp add: own_entries_def is_array_index_def is_digit_def)

text \<open>
  C9, evaluated. The hook validates a form whose one field delegates to a server check;
  the check runs and reports progress 50 through the callback it was handed. The
  callback of the hook, which would record the pair of field and progress, is passed to
  \<^verbatim>\<open>safeParse\<close> as a fourth argument and goes no further: after validation the upload
  progress is still empty.
\<close>

theorem progress_callback_not_threaded:
  "validate avatar_form None (JObj [(''avatar'', JFile photo)]) ''default''
     (blank_form, empty_store)
   = (True,
      \<lparr>formValue = JObj [(''avatar'', JFile photo)], formErrors = []\<rparr>,
      empty_store\<lparr>calls := [''check'']\<rparr>)
   \<and> uploadProgress (empty_store\<lparr>calls := [''check'']\<rparr>) = []"
proof -
  have c: "cacheMap avatar_form = None" and t: "transformFn avatar_form = None"
    by (simp_all add: avatar_form_def object_def)
  have run: "validator avatar_form (JObj [(''avatar'', JFile photo)]) parent opts empty_store
        = (Promise 11 (Success (JObj [(''avatar'', JFile photo)])),
           empty_store\<lparr>calls := [''check'']\<rparr>)"
    for parent opts
    by (simp add: avatar_form_def object_def is_object_def own_entries_avatar js_get_def
        avatar_field_safeParse settle_order_def field_settled_def all_ticks_def empty_store_def)
  have v: "stage_validator avatar_form ''default'' = validator avatar_form"
    by (simp add: stage_validator_def avatar_form_def object_def)
  show ?thesis
    by (simp add: validate_def safeParse_surplus_def safeParse_uncached [OF c] v run
        finalRes_def apply_transform_def t blank_form_def)
       (simp add: empty_store_def)
qed

text \<open>
  The refinement itself does report when its validator is handed the options object:
  the missing link is between \<^verbatim>\<open>safeParse\<close> and the validator.
\<close>

lemma serverValidate_reports_when_given_options:
  "uploadProgress (snd (validator avatar_field (JFile photo) JUndefined
      (Some (\<lambda>field progress s. s\<lparr>uploadProgress := obj_set field progress (uploadProgress s)\<rparr>))
      empty_store)) = [(''avatar'', 50)]"
  by (simp add: avatar_field_direct empty_store_def)

section \<open>\<^verbatim>\<open>parse\<close>\<close>

lemma length_own_entries [simp]: "length (own_entries m) = length m"
  by (simp add: own_entries_def sum_length_filter_compl)

lemma own_entries_Nil_iff [simp]: "own_entries m = [] \<longleftrightarrow> m = []"
  using length_own_entries [of m] by (metis length_0_conv)

lemma own_entries_no_index:
  "list_all (\<lambda>e. \<not> is_array_index (fst e)) m \<Longrightarrow> own_entries m = m"
  by (simp add: own_entries_def list_all_iff)

lemma nat_to_string_0: "nat_to_string 0 = ''0''"
  by (simp add: nat_to_string.simps digit_char_def)

lemma array_index_1: "is_array_index ''1''" and not_index_b: "\<not> is_array_index ''b''"
  and not_index_x: "\<not> is_array_index ''x''" and not_index_y: "\<not> is_array_index ''y''"
  and not_index_value: "\<not> is_array_index ''value''"
  by (simp_all add: is_array_index_def is_digit_def digits_val_def digit_val_def)

lemma numbered_form_fails:
  "validator numbered_form two_photos parent opts empty_store
   = (Promise 5 (Failure [(''b'', ''b must not exceed 0MB''), (''1'', ''1 must not exceed 0MB'')]),
      empty_store)"
  by (simp add: numbered_form_def two_photos_def object_def is_object_def own_entries_def
      not_index_x not_index_y not_index_b array_index_1 js_get_def safeParse_uncached
      maxSizeMB_def describe_def stage_validator_def after_base_def file_schema_def file_of_def
      photo_def or_default_def int_to_string_def nat_to_string_0 finalRes_def
      settle_order_def field_settled_def obj_assign_def all_ticks_def empty_store_def)

text \<open>
  C6, as amended. \<^verbatim>\<open>parse\<close> runs the validator of the stage once. On success it
  returns the value, with the transform applied when there is one. On failure it throws
  an \<^verbatim>\<open>Error\<close> whose message is the first value of the error map in property order
  (array-index keys first, in ascending order, then the other keys in the order of
  insertion), and the empty message when the map is empty. When no key of the map is
  an array index, property order is insertion order, so the message is that of the
  entry inserted first.
\<close>

theorem parse_result:
  assumes "stage_validator this stageName value parent None s = (r, s1)"
  shows "snd (parse this value parent stageName s) = s1
       \<and> settled (fst (parse this value parent stageName s))
           = (case settled r of
                Success x \<Rightarrow> Inr (case transformFn this of Some f \<Rightarrow> f x | None \<Rightarrow> x)
              | Failure errors \<Rightarrow>
                  Inl (Error (if errors = [] then [] else snd (hd (own_entries errors)))))
       \<and> (list_all (\<lambda>e. \<not> is_array_index (fst e)) errs \<longrightarrow> own_entries errs = errs)"
  using assms
  by (cases r)
     (auto simp: parse_def apply_transform_def first_message_def own_entries_no_index
        split: validation_result.splits list.splits)

theorem parse_result_witness:
  "stage_validator string ''default'' (JNum 123) JUndefined None empty_store
     = (Plain (Failure [(''value'', ''Expected a string'')]), empty_store)
   \<and> parse string (JNum 123) JUndefined ''default'' empty_store
     = (Plain (Inl (Error ''Expected a string'')), empty_store)
   \<and> stage_validator (setTransform shout string) ''default'' (JStr ''a'') JUndefined None empty_store
     = (Plain (Success (JStr ''a'')), empty_store)
   \<and> settled (fst (parse (setTransform shout string) (JStr ''a'') JUndefined ''default'' empty_store))
     = Inr (JStr ''a!'')"
proof -
  have a: "stage_validator string ''default'' (JNum 123) JUndefined None empty_store
     = (Plain (Failure [(''value'', ''Expected a string'')]), empty_store)"
    by (simp add: stage_validator_def string_def)
  have b: "stage_validator (setTransform shout string) ''default'' (JStr ''a'') JUndefined None
             empty_store
     = (Plain (Success (JStr ''a'')), empty_store)"
    by (simp add: stage_validator_def string_def setTransform_def)
  have o: "own_entries [(''value'', ''Expected a string'')] = [(''value'', ''Expected a string'')]"
    by (simp add: own_entries_no_index not_index_value)
  show ?thesis
    using a b parse_result [OF a, where errs = "[(''value'', ''Expected a string'')]"]
      parse_result [OF b, where errs = "[]"]
    by (simp add: o setTransform_def shout_def)
       (simp add: parse_def a first_message_def o)
qed

text \<open>
  The claim as stated fails on \<open>numbered_form\<close>: the validator inserts the entry of
  \<^verbatim>\<open>b\<close> first and that of \<^verbatim>\<open>1\<close> second, and \<^verbatim>\<open>parse\<close> throws the message of \<^verbatim>\<open>1\<close>.
\<close>

theorem parse_not_first_inserted:
  "validator numbered_form two_photos JUndefined None empty_store
   = (Promise 5 (Failure [(''b'', ''b must not exceed 0MB''), (''1'', ''1 must not exceed 0MB'')]),
      empty_store)
   \<and> parse numbered_form two_photos JUndefined ''default'' empty_store
   = (Promise 6 (Inl (Error ''1 must not exceed 0MB'')), empty_store)"
proof -
  have v: "stage_validator numbered_form ''default'' = validator numbered_form"
    by (simp add: stage_validator_def numbered_form_def object_def)
  show ?thesis
    by (simp add: parse_def v numbered_form_fails first_message_def own_entries_def
        not_index_b array_index_1)
qed

text \<open>
  In the second copy of the class the synchronous failure branch raises a
  \<^verbatim>\<open>ReferenceError\<close> in place of the validation message.
\<close>

lemma parse_second_copy_sync_failure:
  "parse_second_copy string (JNum 123) JUndefined ''default'' s
   = (Plain (Inl (ReferenceError ''res is not defined'')), s)
   \<and> parse string (JNum 123) JUndefined ''default'' s
   = (Plain (Inl (Error ''Expected a string'')), s)"
  by (simp add: parse_second_copy_def parse_def stage_validator_def string_def first_message_def
      own_entries_no_index not_index_value)

section \<open>The error map of \<^verbatim>\<open>object\<close>\<close>

lemma fields_fold_errors:
  "snd (foldl (\<lambda>a e. field_settled (fst e) (settled (snd e)) a) acc xs)
   = foldl obj_assign (snd acc)
       (concat (map (\<lambda>e. case settled (snd e) of Failure errs \<Rightarrow> [errs] | Success d \<Rightarrow> []) xs))"
  by (induction xs arbitrary: acc) (auto simp: field_settled_def split: validation_result.splits)

lemma own_entries_Nil [simp]: "own_entries [] = []"
  by (simp add: own_entries_def)

lemma map_of_fold_obj_set:
  "map_of (foldl (\<lambda>acc e. obj_set (fst e) (snd e) acc) tgt xs) = map_of tgt ++ map_of (rev xs)"
  by (induction xs arbitrary: tgt) (auto simp: map_of_obj_set)

lemma set_own_entries [simp]: "set (own_entries m) = set m"
  by (auto simp: own_entries_def)

lemma distinct_keys_own_entries:
  assumes "distinct (map fst m)"
  shows "distinct (map fst (own_entries m))"
proof -
  from assms have d: "distinct m" and i: "inj_on fst (set m)"
    by (simp_all add: distinct_map)
  have "distinct (own_entries m)"
    using d by (auto simp: own_entries_def)
  then show ?thesis
    using i by (simp add: distinct_map)
qed

lemma map_of_own_entries:
  assumes "distinct (map fst m)"
  shows "map_of (own_entries m) = map_of m"
  using map_of_inject_set [OF distinct_keys_own_entries [OF assms] assms] by simp

lemma map_of_rev_distinct:
  assumes "distinct (map fst xs)"
  shows "map_of (rev xs) = map_of xs"
proof -
  have "distinct (map fst (rev xs))"
    using assms by (simp add: rev_map [symmetric])
  from map_of_inject_set [OF this assms] show ?thesis by simp
qed

lemma map_of_obj_assign:
  assumes "distinct (map fst src)"
  shows "map_of (obj_assign tgt src) = map_of tgt ++ map_of src"
  by (simp add: obj_assign_def map_of_fold_obj_set
      map_of_rev_distinct [OF distinct_keys_own_entries [OF assms]] map_of_own_entries [OF assms])

lemma keys_obj_set: "fst ` set (obj_set k v m) = insert k (fst ` set m)"
  by (induction m) auto

lemma distinct_obj_set: "distinct (map fst m) \<Longrightarrow> distinct (map fst (obj_set k v m))"
  by (induction m) (auto simp: keys_obj_set)

lemma distinct_fold_obj_set:
  "distinct (map fst tgt) \<Longrightarrow>
   distinct (map fst (foldl (\<lambda>acc e. obj_set (fst e) (snd e) acc) tgt xs))"
  by (induction xs arbitrary: tgt) (auto simp: distinct_obj_set)

lemma distinct_obj_assign:
  "distinct (map fst tgt) \<Longrightarrow> distinct (map fst (obj_assign tgt src))"
  by (simp add: obj_assign_def distinct_fold_obj_set)

lemma distinct_fold_obj_assign:
  "distinct (map fst tgt) \<Longrightarrow> distinct (map fst (foldl obj_assign tgt fs))"
  by (induction fs arbitrary: tgt) (auto simp: distinct_obj_assign)

lemma map_of_fold_obj_assign:
  "list_all (\<lambda>errs. distinct (map fst errs)) fs \<Longrightarrow>
   map_of (foldl obj_assign tgt fs) = foldl (++) (map_of tgt) (map map_of fs)"
  by (induction fs arbitrary: tgt) (auto simp: map_of_obj_assign)

lemma keys_fold_obj_set:
  "fst ` set (foldl (\<lambda>acc e. obj_set (fst e) (snd e) acc) tgt xs) = fst ` set tgt \<union> fst ` set xs"
  by (induction xs arbitrary: tgt) (auto simp: keys_obj_set)

lemma keys_obj_assign: "fst ` set (obj_assign tgt src) = fst ` set tgt \<union> fst ` set src"
  by (simp add: obj_assign_def keys_fold_obj_set)

lemma keys_fold_obj_assign:
  "fst ` set (foldl obj_assign tgt fs) = fst ` set tgt \<union> (\<Union>errs\<in>set fs. fst ` set errs)"
  by (induction fs arbitrary: tgt) (auto simp: keys_obj_assign)

lemma fold_obj_assign_Nil_iff:
  "foldl obj_assign [] fs = [] \<longleftrightarrow> list_all (\<lambda>errs. errs = []) fs"
proof -
  have "foldl obj_assign [] fs = [] \<longleftrightarrow> fst ` set (foldl obj_assign [] fs) = {}"
    by simp
  also have "\<dots> \<longleftrightarrow> list_all (\<lambda>errs. errs = []) fs"
    by (simp add: keys_fold_obj_assign list_all_iff)
  finally show ?thesis .
qed

lemma not_index_name: "\<not> is_array_index ''name''" and not_index_age: "\<not> is_array_index ''age''"
  by (simp_all add: is_array_index_def is_digit_def)

lemma string_safeParse:
  "safeParse string value parent ''default'' s
   = (Plain (case value of JStr x \<Rightarrow> Success value
             | _ \<Rightarrow> Failure [(''value'', ''Expected a string'')]), s)"
  by (cases "value") (simp_all add: safeParse_uncached string_def stage_validator_def finalRes_def
      apply_transform_def)

lemma person_fields:
  "start_fields (own_entries person_shape) person s
   = ([(''name'', Plain (Failure [(''value'', ''Expected a string'')])),
       (''age'', Plain (Success (JStr ''5'')))], s)"
  by (simp add: person_shape_def own_entries_no_index not_index_name not_index_age
      string_safeParse person_def js_get_def)

lemma person_failures:
  "field_failures [(''name'', Plain (Failure [(''value'', ''Expected a string'')])),
                   (''age'', Plain (Success (JStr ''5'')))]
   = [[(''value'', ''Expected a string'')]]"
  by (simp add: field_failures_def settle_order_def)

lemma obj_assign_single:
  "obj_assign [] [(''value'', m)] = [(''value'', m)]"
  by (simp add: obj_assign_def own_entries_no_index not_index_value)

text \<open>
  Two failing fields that use the same key leave one entry, that of the field that
  settles last.
\<close>

lemma object_equal_keys_collide:
  "settled (fst (validator (object 3 [(''a'', string), (''b'', file_schema)])
      (JObj [(''a'', JNum 1), (''b'', JNum 2)]) JUndefined None empty_store))
   = Failure [(''value'', ''Expected a file'')]"
  by (simp add: object_def is_object_def own_entries_def is_array_index_def is_digit_def
      js_get_def safeParse_uncached stage_validator_def string_def file_schema_def finalRes_def
      settle_order_def field_settled_def obj_assign_def all_ticks_def empty_store_def)

text \<open>
  Each started field holds the result of \<^verbatim>\<open>safeParse\<close> on the field's own schema, with the
  property of the candidate as value and the whole candidate as parent.
\<close>

lemma start_fields_each:
  "start_fields fs value s = (rs, s1) \<Longrightarrow>
   list_all2 (\<lambda>field e. fst e = fst field
        \<and> (\<exists>s'. snd e = fst (safeParse (snd field) (js_get value (fst field)) value ''default'' s')))
     fs rs"
proof (induction fs arbitrary: s rs s1)
  case Nil
  then show ?case by simp
next
  case (Cons field others)
  obtain r s2 where a: "safeParse (snd field) (js_get value (fst field)) value ''default'' s = (r, s2)"
    by (cases "safeParse (snd field) (js_get value (fst field)) value ''default'' s")
  obtain rs' s3 where b: "start_fields others value s2 = (rs', s3)"
    by (cases "start_fields others value s2")
  from Cons.prems a b have rs: "rs = (fst field, r) # rs'"
    by simp
  have "r = fst (safeParse (snd field) (js_get value (fst field)) value ''default'' s)"
    using a by simp
  then show ?case
    using Cons.IH [OF b] rs by auto
qed

text \<open>
  C1, as amended. The validator of \<^verbatim>\<open>object\<close>, on an object candidate, starts every field
  of the shape. When a failing field reports at least one entry (and each failing
  field's error map has distinct keys, as every object has), the result is a failure
  whose error map is the failing fields' error maps assigned one after the other, in
  the order the fields settle, into one map: its keys are distinct, they are the union
  of the keys of the failing fields' maps, and as a map it is their union in which, for
  a key that several fields report, the field settling last wins. The keys are those
  the fields themselves use, not the field names.
\<close>

theorem object_error_map:
  assumes "is_object value"
    and "start_fields (own_entries shape) value s = (rs, s1)"
    and "\<not> list_all (\<lambda>errs. errs = []) (field_failures rs)"
    and "list_all (\<lambda>errs. distinct (map fst errs)) (field_failures rs)"
  shows "validator (object inst shape) value parent opts s
         = (Promise (all_ticks (map snd rs)) (Failure (foldl obj_assign [] (field_failures rs))), s1)
       \<and> distinct (map fst (foldl obj_assign [] (field_failures rs)))
       \<and> map_of (foldl obj_assign [] (field_failures rs))
           = foldl (++) Map.empty (map map_of (field_failures rs))
       \<and> fst ` set (foldl obj_assign [] (field_failures rs))
           = (\<Union>errs\<in>set (field_failures rs). fst ` set errs)"
proof -
  have e: "snd (foldl (\<lambda>a e. field_settled (fst e) (settled (snd e)) a) ([], []) (settle_order rs))
           = foldl obj_assign [] (field_failures rs)"
    by (simp add: fields_fold_errors field_failures_def)
  have n: "foldl obj_assign [] (field_failures rs) \<noteq> []"
    using assms(3) by (simp add: fold_obj_assign_Nil_iff)
  have run: "validator (object inst shape) value parent opts s
         = (Promise (all_ticks (map snd rs)) (Failure (foldl obj_assign [] (field_failures rs))), s1)"
    using assms(1,2) n by (simp add: object_def Let_def e)
  show ?thesis
    using run assms(4)
    by (simp add: distinct_fold_obj_assign map_of_fold_obj_assign keys_fold_obj_assign)
qed

theorem object_error_map_witness:
  "is_object person
   \<and> start_fields (own_entries person_shape) person empty_store
       = ([(''name'', Plain (Failure [(''value'', ''Expected a string'')])),
           (''age'', Plain (Success (JStr ''5'')))], empty_store)
   \<and> validator (object 2 person_shape) person JUndefined None empty_store
       = (Promise 3 (Failure [(''value'', ''Expected a string'')]), empty_store)
   \<and> map_of [(''value'', ''Expected a string'')] = [''value'' \<mapsto> ''Expected a string'']"
proof -
  have o: "is_object person"
    by (simp add: person_def is_object_def)
  have n: "\<not> list_all (\<lambda>errs. errs = [])
             (field_failures [(''name'', Plain (Failure [(''value'', ''Expected a string'')])),
                              (''age'', Plain (Success (JStr ''5'')))])"
    by (simp add: person_failures)
  have d: "list_all (\<lambda>errs. distinct (map fst errs))
             (field_failures [(''name'', Plain (Failure [(''value'', ''Expected a string'')])),
                              (''age'', Plain (Success (JStr ''5'')))])"
    by (simp add: person_failures)
  show ?thesis
    using o person_fields [of empty_store]
      object_error_map [OF o person_fields n d, where inst = 2 and parent = JUndefined
        and opts = None]
    by (simp add: person_failures obj_assign_single all_ticks_def)
qed

text \<open>
  The example of the claim: the key is \<^verbatim>\<open>value\<close>, the key of the primitive, not
  \<^verbatim>\<open>name\<close>.
\<close>

theorem object_keys_are_not_field_names:
  "settled (fst (validator person_form person JUndefined None empty_store))
     = Failure [(''value'', ''Expected a string'')]
   \<and> settled (fst (validator person_form person JUndefined None empty_store))
     \<noteq> Failure [(''name'', ''Expected a string'')]"
  by (simp add: person_form_def object_def person_fields settle_order_def field_settled_def
      obj_assign_single all_ticks_def)
     (simp add: person_def is_object_def empty_store_def)

section \<open>The result of \<^verbatim>\<open>array\<close>\<close>

lemma gallery_item:
  "safeParse (serverValidate sized_check None file_schema) (JFile f) parent ''default'' s
   = (Promise (fsize f + 3) (Success (JFile f)), s)"
  by (simp add: safeParse_uncached serverValidate_def stage_validator_def after_base_def
      file_schema_def file_of_def sized_check_def finalRes_def apply_transform_def)

text \<open>
  C4, evaluated. Two files are validated by a list schema whose item check takes longer
  for the first file than for the second. Both pass, and the success carries the second
  file before the first: each callback pushes its data when it resumes, so the sequence
  is in the order of settling, not of the input.
\<close>

theorem array_pushes_in_settle_order:
  "validator gallery (JArr [JFile big, JFile small]) JUndefined None empty_store
   = (Promise 15 (Success (JArr [JFile small, JFile big])), empty_store)"
  by (simp add: gallery_def array_def array_loop.simps gallery_item settle_order_def
      item_settled_def all_ticks_def big_def small_def)

text \<open>
  An item that fails with an empty error map records nothing and pushes nothing: the
  result is a success that carries the other items only. An item that fails with a
  message is reported under its index.
\<close>

lemma array_drops_silent_failure:
  "validator (array silent_reject None) (JArr [JStr ''a'', JNum 1, JStr ''b'']) JUndefined None
     empty_store
   = (Promise 3 (Success (JArr [JStr ''a'', JStr ''b''])), empty_store)"
  by (simp add: array_def array_loop.simps safeParse_uncached silent_reject_def
      stage_validator_def finalRes_def apply_transform_def settle_order_def item_settled_def
      all_ticks_def)

lemma array_reports_by_index:
  "validator (array string None) (JArr [JStr ''a'', JNum 1, JStr ''b'']) JUndefined None
     empty_store
   = (Promise 3 (Failure [(''1.value'', ''Expected a string'')]), empty_store)"
  by (simp add: array_def array_loop.simps string_safeParse settle_order_def item_settled_def
      all_ticks_def own_entries_no_index not_index_value nat_to_string.simps digit_char_def)

lemma start_items_append:
  "start_items item (ys @ zs) s
   = (case start_items item ys s of
        (r1, s1) \<Rightarrow> (case start_items item zs s1 of (r2, s2) \<Rightarrow> (r1 @ r2, s2)))"
proof (induction ys arbitrary: s)
  case Nil
  show ?case by (simp split: prod.splits)
next
  case (Cons y ys)
  show ?case
    by (simp add: Cons.IH split: prod.splits)
qed


lemma items_fold_success:
  "list_all (\<lambda>r. succeeded (settled r)) rs \<Longrightarrow>
   foldl (\<lambda>a e. item_settled (i + fst e) (settled (snd e)) a) acc (enumerate n rs)
   = (fst acc @ map (\<lambda>r. data_of (settled r)) rs, snd acc)"
proof (induction rs arbitrary: acc n)
  case Nil
  show ?case by simp
next
  case (Cons r rs)
  from Cons.prems obtain d where d: "settled r = Success d"
    by (cases "settled r") (simp_all add: succeeded_def)
  from Cons.prems have rest: "list_all (\<lambda>r. succeeded (settled r)) rs"
    by simp
  have step: "item_settled (i + n) (settled r) acc = (fst acc @ [d], snd acc)"
    by (simp add: d item_settled_def)
  have dat: "data_of (settled r) = d"
    by (simp add: d data_of_def)
  show ?case
    by (simp add: step dat Cons.IH [OF rest])
qed

lemma settle_order_sorted:
  assumes "sorted (map resume_tick rs)"
  shows "settle_order (enumerate n rs) = enumerate n rs"
proof -
  have "map (\<lambda>e. resume_tick (snd e)) (enumerate n rs) = map resume_tick (map snd (enumerate n rs))"
    by (simp only: map_map comp_def)
  then have "sorted (map (\<lambda>e. resume_tick (snd e)) (enumerate n rs))"
    using assms by simp
  then show ?thesis
    unfolding settle_order_def by (rule sort_key_id_if_sorted)
qed

lemma array_loop_in_order:
  assumes "0 < c"
    and "start_items item (drop i xs) s = (rs, s1)"
    and "list_all (\<lambda>r. succeeded (settled r)) rs"
    and "sorted (map resume_tick rs)"
  shows "fst (fst (array_loop item c xs i acc t s)) = (fst acc @ map (\<lambda>r. data_of (settled r)) rs, snd acc)
       \<and> snd (array_loop item c xs i acc t s) = s1"
  using assms
proof (induction item c xs i acc t s arbitrary: rs rule: array_loop.induct)
  case (1 item c xs i acc t s)
  show ?case
  proof (cases "i < length xs")
    case False
    then have "rs = []" and "s1 = s"
      using "1.prems"(2) by simp_all
    moreover have "array_loop item c xs i acc t s = ((acc, t), s)"
      using array_loop.simps [of item c xs i acc t s] False by simp
    ultimately show ?thesis
      by simp
  next
    case True
    obtain r1 s' where b: "start_items item (take c (drop i xs)) s = (r1, s')"
      by (cases "start_items item (take c (drop i xs)) s")
    obtain r2 s'' where r: "start_items item (drop (i + c) xs) s' = (r2, s'')"
      by (cases "start_items item (drop (i + c) xs) s'")
    have split: "drop i xs = take c (drop i xs) @ drop (i + c) xs"
      using append_take_drop_id [of c "drop i xs"] by (simp add: add.commute)
    have "start_items item (drop i xs) s = (r1 @ r2, s'')"
      by (subst split) (simp add: start_items_append b r)
    with "1.prems"(2) have rs: "rs = r1 @ r2" and s1: "s1 = s''"
      by simp_all
    from "1.prems"(3,4) rs have ok1: "list_all (\<lambda>r. succeeded (settled r)) r1"
      and ok2: "list_all (\<lambda>r. succeeded (settled r)) r2"
      and so1: "sorted (map resume_tick r1)" and so2: "sorted (map resume_tick r2)"
      by (simp_all add: sorted_append)
    let ?acc = "foldl (\<lambda>a e. item_settled (i + fst e) (settled (snd e)) a) acc
                  (settle_order (enumerate 0 r1))"
    have acc: "?acc = (fst acc @ map (\<lambda>r. data_of (settled r)) r1, snd acc)"
      by (simp add: settle_order_sorted [OF so1] items_fold_success [OF ok1])
    have ih: "fst (fst (array_loop item c xs (i + c) ?acc (t + all_ticks r1) s'))
              = (fst ?acc @ map (\<lambda>r. data_of (settled r)) r2, snd ?acc)
            \<and> snd (array_loop item c xs (i + c) ?acc (t + all_ticks r1) s') = s1"
    proof -
      have c1: "i < length xs \<and> 0 < c"
        using True "1.prems"(1) by simp
      have r': "start_items item (drop (i + c) xs) s' = (r2, s1)"
        using r s1 by simp
      show ?thesis
        by (rule "1.IH" [OF c1 b [symmetric] "1.prems"(1) r' ok2 so2])
    qed
    have unfold: "array_loop item c xs i acc t s
                  = array_loop item c xs (i + c) ?acc (t + all_ticks r1) s'"
      using array_loop.simps [of item c xs i acc t s] True "1.prems"(1) b by simp
    have goal1: "fst (fst (array_loop item c xs i acc t s))
              = (fst ?acc @ map (\<lambda>r. data_of (settled r)) r2, snd ?acc)"
      using ih unfold by metis
    have goal2: "snd (array_loop item c xs i acc t s) = s1"
      using ih unfold by metis
    have e: "(fst ?acc @ map (\<lambda>r. data_of (settled r)) r2, snd ?acc)
         = (fst acc @ map (\<lambda>r. data_of (settled r)) rs, snd acc)"
      unfolding acc rs by simp
    show ?thesis
      using goal1 goal2 e by metis
  qed
qed




text \<open>
  What does hold of the sequence. When every element passes and the elements settle in
  index order (as they do when all take equally long), the success carries the data of
  the elements in input order, and the store is the one left by starting the elements
  one after the other.
\<close>

theorem array_in_order:
  assumes "start_items itemSchema xs s = (rs, s1)"
    and "list_all (\<lambda>r. succeeded (settled r)) rs"
    and "sorted (map resume_tick rs)"
  shows "settled (fst (validator (array itemSchema batchConcurrency) (JArr xs) parent opts s))
         = Success (JArr (map (\<lambda>r. data_of (settled r)) rs))
       \<and> snd (validator (array itemSchema batchConcurrency) (JArr xs) parent opts s) = s1"
proof -
  define c where "c = (case batchConcurrency of None \<Rightarrow> 4 | Some c \<Rightarrow> if c = 0 then 4 else c)"
  have c: "0 < c"
    by (simp add: c_def split: option.splits)
  have st: "start_items itemSchema (drop 0 xs) s = (rs, s1)"
    using assms(1) by simp
  obtain res errs t s' where run: "array_loop itemSchema c xs 0 ([], []) 0 s = (((res, errs), t), s')"
    by (metis surj_pair)
  from array_loop_in_order [OF c st assms(2,3), of "([], [])" 0] run
  have "res = map (\<lambda>r. data_of (settled r)) rs" and "errs = []" and "s' = s1"
    by simp_all
  then show ?thesis
    using run by (simp add: array_def c_def [symmetric])
qed


lemma length_start_items: "start_items item xs s = (rs, s1) \<Longrightarrow> length rs = length xs"
proof (induction xs arbitrary: s rs s1)
  case Nil
  then show ?case by simp
next
  case (Cons x xs)
  obtain r s2 where a: "safeParse item x JUndefined ''default'' s = (r, s2)"
    by (cases "safeParse item x JUndefined ''default'' s")
  obtain rs' s3 where b: "start_items item xs s2 = (rs', s3)"
    by (cases "start_items item xs s2")
  from Cons.prems a b have "rs = r # rs'"
    by simp
  then show ?case
    using Cons.IH [OF b] by simp
qed

lemma keys_fold_prefixed:
  "fst ` set (foldl (\<lambda>errors e. obj_set (f (fst e)) (snd e) errors) tgt ys)
   = fst ` set tgt \<union> f ` fst ` set ys"
  by (induction ys arbitrary: tgt) (auto simp: keys_obj_set)

lemma keys_item_settled:
  "fst ` set (snd (item_settled pos res acc))
   = fst ` set (snd acc) \<union> (\<lambda>k. nat_to_string pos @ ''.'' @ k) ` fst ` set (errors_of res)"
proof (cases res)
  case (Success d)
  then show ?thesis
    by (simp add: item_settled_def errors_of_def)
next
  case (Failure errs)
  show ?thesis
    using keys_fold_prefixed [of "\<lambda>k. nat_to_string pos @ ''.'' @ k" "snd acc" "own_entries errs"]
    by (simp add: Failure item_settled_def errors_of_def)
qed

lemma keys_items_fold:
  "fst ` set (snd (foldl (\<lambda>a e. item_settled (i + fst e) (settled (snd e)) a) acc ys))
   = fst ` set (snd acc) \<union> (\<Union>e\<in>set ys. index_keys (i + fst e, snd e))"
  by (induction ys arbitrary: acc) (auto simp: keys_item_settled index_keys_def)

lemma shift_enumerate:
  "(\<Union>e\<in>set (enumerate n rs). index_keys (i + fst e, snd e))
   = (\<Union>e\<in>set (enumerate (i + n) rs). index_keys e)"
  by (induction rs arbitrary: n) simp_all


lemma array_loop_in_order_store:
  assumes "0 < c"
    and "start_items item (drop i xs) s = (rs, s1)"
  shows "snd (array_loop item c xs i acc t s) = s1"
  using assms
proof (induction item c xs i acc t s arbitrary: rs rule: array_loop.induct)
  case (1 item c xs i acc t s)
  show ?case
  proof (cases "i < length xs")
    case False
    then have "s1 = s"
      using "1.prems"(2) by simp
    moreover have "array_loop item c xs i acc t s = ((acc, t), s)"
      using array_loop.simps [of item c xs i acc t s] False by simp
    ultimately show ?thesis
      by simp
  next
    case True
    obtain r1 s' where b: "start_items item (take c (drop i xs)) s = (r1, s')"
      by (cases "start_items item (take c (drop i xs)) s")
    obtain r2 s'' where r: "start_items item (drop (i + c) xs) s' = (r2, s'')"
      by (cases "start_items item (drop (i + c) xs) s'")
    have split: "drop i xs = take c (drop i xs) @ drop (i + c) xs"
      using append_take_drop_id [of c "drop i xs"] by (simp add: add.commute)
    have "start_items item (drop i xs) s = (r1 @ r2, s'')"
      by (subst split) (simp add: start_items_append b r)
    with "1.prems"(2) have s1: "s1 = s''"
      by simp
    let ?acc = "foldl (\<lambda>a e. item_settled (i + fst e) (settled (snd e)) a) acc
                  (settle_order (enumerate 0 r1))"
    have c1: "i < length xs \<and> 0 < c"
      using True "1.prems"(1) by simp
    have r': "start_items item (drop (i + c) xs) s' = (r2, s1)"
      using r s1 by simp
    have ih: "snd (array_loop item c xs (i + c) ?acc (t + all_ticks r1) s') = s1"
      by (rule "1.IH" [OF c1 b [symmetric] "1.prems"(1) r'])
    have unfold: "array_loop item c xs i acc t s
                  = array_loop item c xs (i + c) ?acc (t + all_ticks r1) s'"
      using array_loop.simps [of item c xs i acc t s] True "1.prems"(1) b by simp
    show ?thesis
      unfolding unfold by (rule ih)
  qed
qed

lemma set_settle_order [simp]: "set (settle_order ys) = set ys"
  by (simp add: settle_order_def)

lemma array_loop_keys:
  assumes "0 < c"
    and "start_items item (drop i xs) s = (rs, s1)"
  shows "fst ` set (snd (fst (fst (array_loop item c xs i acc t s))))
         = fst ` set (snd acc) \<union> (\<Union>e\<in>set (enumerate i rs). index_keys e)"
  using assms
proof (induction item c xs i acc t s arbitrary: rs rule: array_loop.induct)
  case (1 item c xs i acc t s)
  show ?case
  proof (cases "i < length xs")
    case False
    then have "rs = []"
      using "1.prems"(2) by simp
    moreover have "array_loop item c xs i acc t s = ((acc, t), s)"
      using array_loop.simps [of item c xs i acc t s] False by simp
    ultimately show ?thesis
      by simp
  next
    case True
    obtain r1 s' where b: "start_items item (take c (drop i xs)) s = (r1, s')"
      by (cases "start_items item (take c (drop i xs)) s")
    obtain r2 s'' where r: "start_items item (drop (i + c) xs) s' = (r2, s'')"
      by (cases "start_items item (drop (i + c) xs) s'")
    have split: "drop i xs = take c (drop i xs) @ drop (i + c) xs"
      using append_take_drop_id [of c "drop i xs"] by (simp add: add.commute)
    have "start_items item (drop i xs) s = (r1 @ r2, s'')"
      by (subst split) (simp add: start_items_append b r)
    with "1.prems"(2) have rs: "rs = r1 @ r2" and s1: "s1 = s''"
      by simp_all
    have l1: "length r1 = min c (length xs - i)"
      using length_start_items [OF b] by (simp add: min.commute)
    have l2: "length r2 = length xs - (i + c)"
      using length_start_items [OF r] by simp
    have en: "enumerate (i + length r1) r2 = enumerate (i + c) r2"
    proof (cases "c \<le> length xs - i")
      case True
      then show ?thesis using l1 by simp
    next
      case False
      then have "r2 = []" using l2 by simp
      then show ?thesis by simp
    qed
    let ?acc = "foldl (\<lambda>a e. item_settled (i + fst e) (settled (snd e)) a) acc
                  (settle_order (enumerate 0 r1))"
    have acc: "fst ` set (snd ?acc)
               = fst ` set (snd acc) \<union> (\<Union>e\<in>set (enumerate i r1). index_keys e)"
      using shift_enumerate [where n = 0 and rs = r1 and i = i] by (simp add: keys_items_fold)
    have ih: "fst ` set (snd (fst (fst (array_loop item c xs (i + c) ?acc (t + all_ticks r1) s'))))
              = fst ` set (snd ?acc) \<union> (\<Union>e\<in>set (enumerate (i + c) r2). index_keys e)"
    proof -
      have c1: "i < length xs \<and> 0 < c"
        using True "1.prems"(1) by simp
      have r': "start_items item (drop (i + c) xs) s' = (r2, s1)"
        using r s1 by simp
      show ?thesis
        by (rule "1.IH" [OF c1 b [symmetric] "1.prems"(1) r'])
    qed
    have unfold: "array_loop item c xs i acc t s
                  = array_loop item c xs (i + c) ?acc (t + all_ticks r1) s'"
      using array_loop.simps [of item c xs i acc t s] True "1.prems"(1) b by simp
    have "(\<Union>e\<in>set (enumerate i rs). index_keys e)
          = (\<Union>e\<in>set (enumerate i r1). index_keys e)
            \<union> (\<Union>e\<in>set (enumerate (i + c) r2). index_keys e)"
      by (simp add: rs enumerate_append_eq en)
    then show ?thesis
      unfolding unfold ih acc by (simp add: Un_assoc)
  qed
qed

text \<open>
  When an element fails with at least one entry, the result is a failure, and the keys
  of its error map are exactly the keys of the failing elements, each prefixed with
  the index of its element and a dot.
\<close>

theorem array_failure:
  assumes "start_items itemSchema xs s = (rs, s1)"
    and "list_ex (\<lambda>r. errors_of (settled r) \<noteq> []) rs"
  shows "\<exists>E. validator (array itemSchema batchConcurrency) (JArr xs) parent opts s
               = (Promise (snd (fst (array_loop itemSchema
                     (case batchConcurrency of None \<Rightarrow> 4 | Some c \<Rightarrow> if c = 0 then 4 else c)
                     xs 0 ([], []) 0 s))) (Failure E), s1)
            \<and> fst ` set E = (\<Union>e\<in>set (enumerate 0 rs). index_keys e)"
proof -
  define c where "c = (case batchConcurrency of None \<Rightarrow> 4 | Some c \<Rightarrow> if c = 0 then 4 else c)"
  have c: "0 < c"
    by (simp add: c_def split: option.splits)
  have st: "start_items itemSchema (drop 0 xs) s = (rs, s1)"
    using assms(1) by simp
  obtain res E t s' where run: "array_loop itemSchema c xs 0 ([], []) 0 s = (((res, E), t), s')"
    by (metis surj_pair)
  from array_loop_keys [OF c st, of "([], [])" 0] run
  have keys: "fst ` set E = (\<Union>e\<in>set (enumerate 0 rs). index_keys e)"
    by simp
  obtain r where r: "r \<in> set rs" "errors_of (settled r) \<noteq> []"
    using assms(2) by (auto simp: list_ex_iff)
  then obtain j where j: "j < length rs" "rs ! j = r"
    by (auto simp: in_set_conv_nth)
  then have "(j, r) \<in> set (enumerate 0 rs)"
    by (auto simp: in_set_enumerate_eq)
  moreover have "index_keys (j, r) \<noteq> {}"
    using r(2) by (simp add: index_keys_def)
  ultimately have "fst ` set E \<noteq> {}"
    unfolding keys by blast
  then have ne: "E \<noteq> []"
    by auto
  have s': "s' = s1"
    using array_loop_in_order_store [OF c st, of "([], [])" 0] run by simp
  show ?thesis
    using run ne keys s' by (simp add: array_def c_def [symmetric])
qed

section \<open>Conditional branching inside a form\<close>

lemma not_index_file: "\<not> is_array_index ''file''"
  by (simp add: is_array_index_def is_digit_def)

lemma tiered_safeParse:
  "safeParse tiered (JFile photo) parent ''default'' s
   = (Promise 2 (Failure [(''value'',
        if is_premium (or_empty parent) then ''premium: too large'' else ''basic: too large'')]), s)"
  by (simp add: safeParse_uncached tiered_def when_schema_def stage_validator_def maxSizeMB_def
      after_base_def file_schema_def file_of_def photo_def or_default_def finalRes_def)

text \<open>
  \<^verbatim>\<open>object\<close> hands the whole candidate to each field as parent, so a conditional field
  branches on its siblings.
\<close>

lemma when_in_object:
  "settled (fst (validator tiered_form (JObj [(''kind'', JStr ''premium''), (''file'', JFile photo)])
      JUndefined None empty_store))
   = Failure [(''value'', ''premium: too large'')]
   \<and> settled (fst (validator tiered_form (JObj [(''kind'', JStr ''basic''), (''file'', JFile photo)])
      JUndefined None empty_store))
   = Failure [(''value'', ''basic: too large'')]"
  by (simp add: tiered_form_def object_def is_object_def own_entries_no_index not_index_file
      js_get_def tiered_safeParse is_premium_def or_empty_def settle_order_def field_settled_def
      obj_assign_def not_index_value all_ticks_def)

text \<open>
  A refinement layered over a conditional schema calls it without the parent, so the
  condition is applied to the empty object whatever parent the refined schema is given.
\<close>

lemma refinement_over_when_drops_parent:
  "settled (fst (validator (type [''image/png''] None tiered) (JFile photo)
      (JObj [(''kind'', JStr ''premium'')]) None empty_store))
   = Failure [(''value'', ''basic: too large'')]"
  by (simp add: type_def after_base_def tiered_def when_schema_def maxSizeMB_def file_schema_def
      file_of_def photo_def or_default_def is_premium_def or_empty_def js_get_def)

end
